theory Spec2Isabelle
  imports
    Main
    "HOL-Library.Word"
    "HOL-Library.AList"
    "HOL-Library.Char_ord"
    "HOL-Library.List_Lexorder"
    "HOL-Library.Product_Lexorder"
begin

section \<open>Machine integers and strings\<close>

text \<open>
  Go's \<open>time.Duration\<close> is an \<open>int64\<close> (nanoseconds), \<open>uint32\<close> is unsigned and wraps
  around, and \<open>int\<close> is taken at 64 bits (the platforms Contour is built for).  They are
  words: \<open>+\<close> wraps, \<open>sint\<close> reads a signed value, the order on words is the unsigned
  one.  A Go \<open>string\<close> is a byte sequence, compared bytewise: a \<open>char list\<close> under
  the lexicographic order.
\<close>

type_synonym int64 = "64 word"
type_synonym uint32 = "32 word"
type_synonym int32 = "32 word"
type_synonym byte = "8 word"

section \<open>Kubernetes objects\<close>

text \<open>
  The object types come from \<open>k8s.io/api\<close> and from Contour's \<open>apis/\<close> packages.  Each
  record keeps the fields the functions below read, the \<open>Status\<close> the API server or
  Contour itself writes, and the \<open>ResourceVersion\<close> of the metadata.  A Go map that is only
  looked up by key (\<open>Annotations\<close>, \<open>Data\<close>) is a partial function.
\<close>

record ObjectMeta =
  Name :: string
  Namespace :: string
  ResourceVersion :: string
  Annotations :: "string \<rightharpoonup> string"

record v1_Secret =
  secret_ObjectMeta :: ObjectMeta
  secret_Type :: string
  secret_Data :: "string \<rightharpoonup> byte list"

record v1_ServicePort =
  port_Name :: string
  port_Port :: int32

record v1_Service =
  service_ObjectMeta :: ObjectMeta
  service_Ports :: "v1_ServicePort list"
  service_ExternalName :: string
  service_Status :: "string list"

record IngressBackend =
  ServiceName :: string
  ServicePort :: string

record IngressTLS =
  Hosts :: "string list"
  ingresstls_SecretName :: string

record HTTPIngressPath =
  Path :: string
  Backend :: IngressBackend

text \<open>\<open>HTTP\<close> is a pointer to a struct holding \<open>Paths\<close>; \<open>None\<close> is the nil pointer.\<close>

record IngressRule =
  Host :: string
  HTTP :: "HTTPIngressPath list option"

record v1beta1_Ingress =
  ingress_ObjectMeta :: ObjectMeta
  ingress_Backend :: "IngressBackend option"
  ingress_TLS :: "IngressTLS list"
  ingress_Rules :: "IngressRule list"
  ingress_Status :: "string list"

text \<open>
  IngressRoute (\<open>apis/contour/v1beta1\<close>) and HTTPProxy (\<open>apis/projectcontour/v1alpha1\<close>)
  have the same shape in the fields the object store reads: an optional virtual host with
  an optional TLS block, a list of routes with their services, an optional TCP proxy, and a
  status (\<open>CurrentStatus\<close>, \<open>Description\<close>) that Contour writes back after each rebuild.
  The TLSCertificateDelegation of the one API group and that of the other have the same
  shape too; they are told apart where they enter the store.
\<close>

record crd_TLS =
  tls_SecretName :: string
  tls_MinimumProtocolVersion :: string

record crd_VirtualHost =
  Fqdn :: string
  TLS :: "crd_TLS option"

record crd_Service =
  crdservice_Name :: string
  crdservice_Port :: int
  crdservice_Weight :: int

record crd_Route =
  Match :: string
  Services :: "crd_Service list"

record crd_TCPProxy =
  tcpproxy_Services :: "crd_Service list"

record crd_Spec =
  spec_VirtualHost :: "crd_VirtualHost option"
  spec_Routes :: "crd_Route list"
  spec_TCPProxy :: "crd_TCPProxy option"

record crd_Status =
  CurrentStatus :: string
  Description :: string

record IngressRoute =
  ir_ObjectMeta :: ObjectMeta
  ir_Spec :: crd_Spec
  ir_Status :: crd_Status

record HTTPProxy =
  proxy_ObjectMeta :: ObjectMeta
  proxy_Spec :: crd_Spec
  proxy_Status :: crd_Status

record CertificateDelegation =
  SecretName :: string
  TargetNamespaces :: "string list"

record TLSCertificateDelegation =
  delegation_ObjectMeta :: ObjectMeta
  Delegations :: "CertificateDelegation list"

text \<open>
  The \<open>interface{}\<close> values the event handlers receive: a pointer to one of the seven kinds
  the store knows, the informer's tombstone \<open>cache.DeletedFinalStateUnknown\<close> wrapping the
  last known object, or anything else.
\<close>

datatype Object =
  SecretObj v1_Secret
  | ServiceObj v1_Service
  | IngressObj v1beta1_Ingress
  | IngressRouteObj IngressRoute
  | HTTPProxyObj HTTPProxy
  | IRDelegationObj TLSCertificateDelegation
  | ProxyDelegationObj TLSCertificateDelegation
  | DeletedFinalStateUnknown Object
  | OtherObj string

section \<open>The DAG's vertices (internal/dag/dag.go)\<close>

record Service =
  svc_Name :: string
  svc_Namespace :: string
  svc_ServicePort :: v1_ServicePort
  Protocol :: string
  MaxConnections :: uint32
  MaxPendingRequests :: uint32
  MaxRequests :: uint32
  MaxRetries :: uint32
  ExternalName :: string

record Secret =
  Object :: v1_Secret

record UpstreamValidation =
  CACertificate :: "Secret option"
  SubjectName :: string

record HealthCheckPolicy =
  hc_Path :: string
  hc_Host :: string
  hc_Interval :: int64
  hc_Timeout :: int64
  UnhealthyThreshold :: uint32
  HealthyThreshold :: uint32

record Cluster =
  Upstream :: Service
  Weight :: uint32
  UpstreamValidation :: "UpstreamValidation option"
  LoadBalancerStrategy :: string
  HealthCheckPolicy :: "HealthCheckPolicy option"

record TimeoutPolicy =
  Timeout :: int64

record RetryPolicy =
  RetryOn :: string
  NumRetries :: uint32
  PerTryTimeout :: int64

record Route =
  Clusters :: "Cluster list"
  HTTPSUpgrade :: bool
  Websocket :: bool
  TimeoutPolicy :: "TimeoutPolicy option"
  RetryPolicy :: "RetryPolicy option"
  PrefixRewrite :: string

record PrefixRoute =
  Prefix :: string
  prefix_Route :: Route

record RegexRoute =
  Regex :: string
  regex_Route :: Route

section \<open>Route translation (package envoy)\<close>

text \<open>
  The emitted Envoy messages.  A pointer field that may stay unset is an \<open>option\<close>.
  \<open>wrappers.UInt32Value\<close> is the protobuf box around a \<open>uint32\<close>; the code reads and
  writes its \<open>Value\<close>.  The protobuf duration is a type parameter \<open>'d\<close>: the code only
  obtains one from \<open>protobuf.Duration\<close>, which is a parameter of the functions below, as is
  \<open>Clustername\<close>, defined elsewhere in the package.
\<close>

record UInt32Value =
  Value :: uint32

text \<open>
  Modelled from the spec: \<open>protobuf.UInt32\<close> belongs to internal/protobuf, which is
  not among the sources; it boxes its argument, so that emitted weights and retry counts
  are the declared numbers.
\<close>

definition protobuf_UInt32 :: "uint32 \<Rightarrow> UInt32Value" where
  "protobuf_UInt32 v = \<lparr>Value = v\<rparr>"

record 'd envoy_RetryPolicy =
  erp_RetryOn :: string
  erp_NumRetries :: "UInt32Value option"
  erp_PerTryTimeout :: "'d option"

record ClusterWeight =
  cw_Name :: string
  cw_Weight :: UInt32Value

record WeightedCluster =
  wc_Clusters :: "ClusterWeight list"
  wc_TotalWeight :: UInt32Value

record 'd HashPolicy_Cookie =
  cookie_Name :: string
  cookie_Ttl :: 'd
  cookie_Path :: string

datatype ClusterSpecifier =
  RouteAction_Cluster string
  | RouteAction_WeightedClusters WeightedCluster

record 'd RouteAction =
  ra_RetryPolicy :: "'d envoy_RetryPolicy option"
  ra_Timeout :: "'d option"
  ra_PrefixRewrite :: string
  ra_HashPolicy :: "'d HashPolicy_Cookie list"
  ra_UpgradeConfigs :: "string list"
  ra_ClusterSpecifier :: ClusterSpecifier

definition hashPolicy :: "(int64 \<Rightarrow> 'd) \<Rightarrow> Route \<Rightarrow> 'd HashPolicy_Cookie list" where
  "hashPolicy Duration r =
     (if list_ex (\<lambda>c. LoadBalancerStrategy c = ''Cookie'') (Clusters r)
      then [\<lparr>cookie_Name = ''X-Contour-Session-Affinity'', cookie_Ttl = Duration 0,
             cookie_Path = ''/''\<rparr>]
      else [])"

definition timeout :: "(int64 \<Rightarrow> 'd) \<Rightarrow> Route \<Rightarrow> 'd option" where
  "timeout Duration r =
     (case TimeoutPolicy r of
        None \<Rightarrow> None
      | Some tp \<Rightarrow>
          if Timeout tp = 0 then None
          else if Timeout tp = - 1 then Some (Duration 0)
          else Some (Duration (Timeout tp)))"

definition retryPolicy :: "(int64 \<Rightarrow> 'd) \<Rightarrow> Route \<Rightarrow> 'd envoy_RetryPolicy option" where
  "retryPolicy Duration r =
     (case RetryPolicy r of
        None \<Rightarrow> None
      | Some p \<Rightarrow>
          if RetryOn p = [] then None
          else Some
            \<lparr>erp_RetryOn = RetryOn p,
             erp_NumRetries =
               (if 0 < NumRetries p then Some (protobuf_UInt32 (NumRetries p)) else None),
             erp_PerTryTimeout =
               (if 0 < sint (PerTryTimeout p) then Some (Duration (PerTryTimeout p))
                else None)\<rparr>)"

text \<open>
  The first loop of \<open>weightedClusters\<close>.  Its accumulator \<open>tot\<close> (\<open>total\<close> in the
  source) is a \<open>uint32\<close>, so the sum wraps around at \<open>2^32\<close>.  The clusters are
  pointers in the source, none of them nil; the emitted boxes are fresh, so writing their
  \<open>Value\<close> in the second loop touches nothing else.
\<close>

fun weightedClusters_loop ::
  "(Cluster \<Rightarrow> string) \<Rightarrow> Cluster list \<Rightarrow> uint32 \<Rightarrow> ClusterWeight list
     \<Rightarrow> uint32 \<times> ClusterWeight list" where
  "weightedClusters_loop Clustername [] tot acc = (tot, acc)"
| "weightedClusters_loop Clustername (cluster # rest) tot acc =
     weightedClusters_loop Clustername rest (tot + Weight cluster)
       (acc @ [\<lparr>cw_Name = Clustername cluster,
                cw_Weight = protobuf_UInt32 (Weight cluster)\<rparr>])"

text \<open>\<open>clusterWeightByName.Less\<close> orders by name, then by weight: the key of the stable sort.\<close>

definition clusterWeightByName :: "ClusterWeight \<Rightarrow> string \<times> uint32" where
  "clusterWeightByName c = (cw_Name c, Value (cw_Weight c))"

definition weightedClusters :: "(Cluster \<Rightarrow> string) \<Rightarrow> Cluster list \<Rightarrow> WeightedCluster" where
  "weightedClusters Clustername clusters =
     (let (tot, cs) = weightedClusters_loop Clustername clusters 0 [];
          (tot', cs') =
            (if tot = 0
             then (of_nat (length clusters),
                   map (\<lambda>c. c\<lparr>cw_Weight := (cw_Weight c)\<lparr>Value := 1\<rparr>\<rparr>) cs)
             else (tot, cs))
      in \<lparr>wc_Clusters = sort_key clusterWeightByName cs',
          wc_TotalWeight = protobuf_UInt32 tot'\<rparr>)"

definition RouteRoute ::
  "(int64 \<Rightarrow> 'd) \<Rightarrow> (Cluster \<Rightarrow> string) \<Rightarrow> Route \<Rightarrow> 'd RouteAction" where
  "RouteRoute Duration Clustername r =
     \<lparr>ra_RetryPolicy = retryPolicy Duration r,
      ra_Timeout = timeout Duration r,
      ra_PrefixRewrite = PrefixRewrite r,
      ra_HashPolicy = hashPolicy Duration r,
      ra_UpgradeConfigs = (if Websocket r then [''websocket''] else []),
      ra_ClusterSpecifier =
        (case Clusters r of
           [c] \<Rightarrow> RouteAction_Cluster (Clustername c)
         | _ \<Rightarrow> RouteAction_WeightedClusters (weightedClusters Clustername (Clusters r)))\<rparr>"

section \<open>The object store (package dag)\<close>

record Meta =
  name :: string
  namespace :: string

text \<open>
  The seven maps of the store are association lists keyed by \<open>Meta\<close>: assignment is
  \<open>AList.update\<close>, \<open>delete\<close> is \<open>AList.delete\<close>, presence is \<open>map_of\<close>, and a
  \<open>range\<close> loop visits the entries of the list.  Go leaves the order of a map's iteration
  open; every loop below only asks whether some entry passes a test, which no order changes.
  A nil map reads as the empty one and is made before the first write: both are \<open>[]\<close>.
  The embedded logger is left out: the store's state is its maps and its configuration.
\<close>

record KubernetesCache =
  RootNamespaces :: "string list"
  IngressClass :: string
  ingresses :: "(Meta \<times> v1beta1_Ingress) list"
  ingressroutes :: "(Meta \<times> IngressRoute) list"
  httpproxies :: "(Meta \<times> HTTPProxy) list"
  secrets :: "(Meta \<times> v1_Secret) list"
  irdelegations :: "(Meta \<times> TLSCertificateDelegation) list"
  httpproxydelegations :: "(Meta \<times> TLSCertificateDelegation) list"
  services :: "(Meta \<times> v1_Service) list"

definition DEFAULT_INGRESS_CLASS :: string where
  "DEFAULT_INGRESS_CLASS = ''contour''"

definition SecretTypeServiceAccountToken :: string where
  "SecretTypeServiceAccountToken = ''kubernetes.io/service-account-token''"

definition SecretTypeTLS :: string where
  "SecretTypeTLS = ''kubernetes.io/tls''"

definition toMeta :: "ObjectMeta \<Rightarrow> Meta" where
  "toMeta m = \<lparr>name = Name m, namespace = Namespace m\<rparr>"

text \<open>\<open>ingressClass\<close> (internal/dag/annotations.go): the first of three annotations.\<close>

definition ingressClass :: "ObjectMeta \<Rightarrow> string" where
  "ingressClass o_meta =
     (let a = Annotations o_meta in
      case a ''projectcontour.io/ingress.class'' of
        Some class \<Rightarrow> class
      | None \<Rightarrow>
         (case a ''contour.heptio.com/ingress.class'' of
            Some class \<Rightarrow> class
          | None \<Rightarrow>
             (case a ''kubernetes.io/ingress.class'' of
                Some class \<Rightarrow> class
              | None \<Rightarrow> [])))"

text \<open>
  Modelled from the spec: \<open>stringOrDefault\<close> is defined in a file of the package that is
  not among the sources; the spec gives the configured class the default \<open>contour\<close>,
  used when none is set.
\<close>

definition stringOrDefault :: "string \<Rightarrow> string \<Rightarrow> string" where
  "stringOrDefault s def = (if s \<noteq> [] then s else def)"

definition kc_ingressClass :: "KubernetesCache \<Rightarrow> string" where
  "kc_ingressClass kc = stringOrDefault (IngressClass kc) DEFAULT_INGRESS_CLASS"

subsection \<open>serviceTriggersRebuild\<close>

definition ingressNamesService :: "v1_Service \<Rightarrow> v1beta1_Ingress \<Rightarrow> bool" where
  "ingressNamesService service ingress =
     (if Namespace (ingress_ObjectMeta ingress) \<noteq> Namespace (service_ObjectMeta service)
      then False
      else
        (case ingress_Backend ingress of
           Some backend \<Rightarrow> ServiceName backend = Name (service_ObjectMeta service)
         | None \<Rightarrow> False) \<or>
        list_ex (\<lambda>rule.
            case HTTP rule of
              None \<Rightarrow> False
            | Some paths \<Rightarrow>
                list_ex (\<lambda>path. ServiceName (Backend path) = Name (service_ObjectMeta service))
                  paths)
          (ingress_Rules ingress))"

text \<open>The loops over \<open>kc.ingressroutes\<close> and \<open>kc.httpproxies\<close> have the same body.\<close>

definition crdNamesService :: "v1_Service \<Rightarrow> ObjectMeta \<Rightarrow> crd_Spec \<Rightarrow> bool" where
  "crdNamesService service ir_meta ir_spec =
     (if Namespace ir_meta \<noteq> Namespace (service_ObjectMeta service)
      then False
      else
        list_ex (\<lambda>route.
            list_ex (\<lambda>s. crdservice_Name s = Name (service_ObjectMeta service)) (Services route))
          (spec_Routes ir_spec) \<or>
        (case spec_TCPProxy ir_spec of
           Some tcpproxy \<Rightarrow>
             list_ex (\<lambda>s. crdservice_Name s = Name (service_ObjectMeta service))
               (tcpproxy_Services tcpproxy)
         | None \<Rightarrow> False))"

definition serviceTriggersRebuild :: "KubernetesCache \<Rightarrow> v1_Service \<Rightarrow> bool" where
  "serviceTriggersRebuild kc service =
     (list_ex (\<lambda>(m, ingress). ingressNamesService service ingress) (ingresses kc) \<or>
      list_ex (\<lambda>(m, ir). crdNamesService service (ir_ObjectMeta ir) (ir_Spec ir))
        (ingressroutes kc) \<or>
      list_ex (\<lambda>(m, ir). crdNamesService service (proxy_ObjectMeta ir) (proxy_Spec ir))
        (httpproxies kc))"

subsection \<open>secretTriggersRebuild\<close>

text \<open>
  The local map \<open>delegations\<close> has a key \<open>targetnamespace/secretname\<close> for every target
  namespace of every delegation of both kinds; it is the list of its keys, every one mapped
  to \<open>true\<close>, and a lookup is membership.
\<close>

definition delegationKeys :: "TLSCertificateDelegation \<Rightarrow> string list" where
  "delegationKeys d =
     concat (map (\<lambda>cd. map (\<lambda>n. n @ ''/'' @ SecretName cd) (TargetNamespaces cd))
       (Delegations d))"

definition delegations :: "KubernetesCache \<Rightarrow> string list" where
  "delegations kc =
     concat (map (\<lambda>(m, d). delegationKeys d) (irdelegations kc)) @
     concat (map (\<lambda>(m, d). delegationKeys d) (httpproxydelegations kc))"

definition ingressNamesSecret :: "string list \<Rightarrow> v1_Secret \<Rightarrow> v1beta1_Ingress \<Rightarrow> bool" where
  "ingressNamesSecret dels secret ingress =
     (let ns = Namespace (ingress_ObjectMeta ingress);
          sname = Name (secret_ObjectMeta secret);
          sns = Namespace (secret_ObjectMeta secret)
      in
        (ns = sns \<and> list_ex (\<lambda>tls. ingresstls_SecretName tls = sname) (ingress_TLS ingress)) \<or>
        (ns @ ''/'' @ sname \<in> set dels \<and>
         list_ex (\<lambda>tls. ingresstls_SecretName tls = sns @ ''/'' @ sname) (ingress_TLS ingress)) \<or>
        (''*/'' @ sname \<in> set dels \<and>
         list_ex (\<lambda>tls. ingresstls_SecretName tls = sns @ ''/'' @ sname) (ingress_TLS ingress)))"

text \<open>Again one body for the loops over \<open>kc.ingressroutes\<close> and \<open>kc.httpproxies\<close>.\<close>

definition crdNamesSecret :: "string list \<Rightarrow> v1_Secret \<Rightarrow> ObjectMeta \<Rightarrow> crd_Spec \<Rightarrow> bool" where
  "crdNamesSecret dels secret ir_meta ir_spec =
     (case spec_VirtualHost ir_spec of
        None \<Rightarrow> False
      | Some vh \<Rightarrow>
         (case TLS vh of
            None \<Rightarrow> False
          | Some tls \<Rightarrow>
             (let ns = Namespace ir_meta;
                  sname = Name (secret_ObjectMeta secret);
                  sns = Namespace (secret_ObjectMeta secret)
              in
                (ns = sns \<and> tls_SecretName tls = sname) \<or>
                (ns @ ''/'' @ sname \<in> set dels \<and> tls_SecretName tls = sns @ ''/'' @ sname) \<or>
                (''*/'' @ sname \<in> set dels \<and> tls_SecretName tls = sns @ ''/'' @ sname))))"

definition secretTriggersRebuild :: "KubernetesCache \<Rightarrow> v1_Secret \<Rightarrow> bool" where
  "secretTriggersRebuild kc secret =
     (if secret_Data secret ''ca.crt'' \<noteq> None then True
      else
        (let dels = delegations kc in
           list_ex (\<lambda>(m, ingress). ingressNamesSecret dels secret ingress) (ingresses kc) \<or>
           list_ex (\<lambda>(m, ir). crdNamesSecret dels secret (ir_ObjectMeta ir) (ir_Spec ir))
             (ingressroutes kc) \<or>
           list_ex (\<lambda>(m, proxy).
               crdNamesSecret dels secret (proxy_ObjectMeta proxy) (proxy_Spec proxy))
             (httpproxies kc)))"

subsection \<open>Insert and Remove\<close>

text \<open>
  Both return the boolean of the source together with the store after the call.
\<close>

fun Insert :: "KubernetesCache \<Rightarrow> Object \<Rightarrow> bool \<times> KubernetesCache" where
  "Insert kc (SecretObj obj) =
     (if secret_Type obj = SecretTypeServiceAccountToken then (False, kc)
      else if secret_Type obj \<noteq> SecretTypeTLS \<and> secret_Data obj ''ca.crt'' = None
      then (False, kc)
      else
        (let m = toMeta (secret_ObjectMeta obj);
             kc' = kc\<lparr>secrets := AList.update m obj (secrets kc)\<rparr>
         in (secretTriggersRebuild kc' obj, kc')))"
| "Insert kc (ServiceObj obj) =
     (let m = toMeta (service_ObjectMeta obj);
          kc' = kc\<lparr>services := AList.update m obj (services kc)\<rparr>
      in (serviceTriggersRebuild kc' obj, kc'))"
| "Insert kc (IngressObj obj) =
     (let class = ingressClass (ingress_ObjectMeta obj) in
      if class \<noteq> [] \<and> class \<noteq> kc_ingressClass kc then (False, kc)
      else
        (let m = toMeta (ingress_ObjectMeta obj)
         in (True, kc\<lparr>ingresses := AList.update m obj (ingresses kc)\<rparr>)))"
| "Insert kc (IngressRouteObj obj) =
     (let class = ingressClass (ir_ObjectMeta obj) in
      if class \<noteq> [] \<and> class \<noteq> kc_ingressClass kc then (False, kc)
      else
        (let m = toMeta (ir_ObjectMeta obj)
         in (True, kc\<lparr>ingressroutes := AList.update m obj (ingressroutes kc)\<rparr>)))"
| "Insert kc (HTTPProxyObj obj) =
     (let class = ingressClass (proxy_ObjectMeta obj) in
      if class \<noteq> [] \<and> class \<noteq> kc_ingressClass kc then (False, kc)
      else
        (let m = toMeta (proxy_ObjectMeta obj)
         in (True, kc\<lparr>httpproxies := AList.update m obj (httpproxies kc)\<rparr>)))"
| "Insert kc (IRDelegationObj obj) =
     (let m = toMeta (delegation_ObjectMeta obj)
      in (True, kc\<lparr>irdelegations := AList.update m obj (irdelegations kc)\<rparr>))"
| "Insert kc (ProxyDelegationObj obj) =
     (let m = toMeta (delegation_ObjectMeta obj)
      in (True, kc\<lparr>httpproxydelegations := AList.update m obj (httpproxydelegations kc)\<rparr>))"
| "Insert kc (DeletedFinalStateUnknown obj) = (False, kc)"
| "Insert kc (OtherObj obj) = (False, kc)"

fun remove :: "KubernetesCache \<Rightarrow> Object \<Rightarrow> bool \<times> KubernetesCache" where
  "remove kc (SecretObj obj) =
     (let m = toMeta (secret_ObjectMeta obj)
      in (map_of (secrets kc) m \<noteq> None, kc\<lparr>secrets := AList.delete m (secrets kc)\<rparr>))"
| "remove kc (ServiceObj obj) =
     (let m = toMeta (service_ObjectMeta obj)
      in (map_of (services kc) m \<noteq> None, kc\<lparr>services := AList.delete m (services kc)\<rparr>))"
| "remove kc (IngressObj obj) =
     (let m = toMeta (ingress_ObjectMeta obj)
      in (map_of (ingresses kc) m \<noteq> None, kc\<lparr>ingresses := AList.delete m (ingresses kc)\<rparr>))"
| "remove kc (IngressRouteObj obj) =
     (let m = toMeta (ir_ObjectMeta obj)
      in (map_of (ingressroutes kc) m \<noteq> None,
          kc\<lparr>ingressroutes := AList.delete m (ingressroutes kc)\<rparr>))"
| "remove kc (HTTPProxyObj obj) =
     (let m = toMeta (proxy_ObjectMeta obj)
      in (map_of (httpproxies kc) m \<noteq> None,
          kc\<lparr>httpproxies := AList.delete m (httpproxies kc)\<rparr>))"
| "remove kc (IRDelegationObj obj) =
     (let m = toMeta (delegation_ObjectMeta obj)
      in (map_of (irdelegations kc) m \<noteq> None,
          kc\<lparr>irdelegations := AList.delete m (irdelegations kc)\<rparr>))"
| "remove kc (ProxyDelegationObj obj) =
     (let m = toMeta (delegation_ObjectMeta obj)
      in (map_of (httpproxydelegations kc) m \<noteq> None,
          kc\<lparr>httpproxydelegations := AList.delete m (httpproxydelegations kc)\<rparr>))"
| "remove kc (DeletedFinalStateUnknown obj) = (False, kc)"
| "remove kc (OtherObj obj) = (False, kc)"

text \<open>\<open>Remove\<close> unwraps a tombstone and calls itself on the object inside.\<close>

fun Remove :: "KubernetesCache \<Rightarrow> Object \<Rightarrow> bool \<times> KubernetesCache" where
  "Remove kc (DeletedFinalStateUnknown obj) = Remove kc obj"
| "Remove kc obj = remove kc obj"

section \<open>The event handler (package contour)\<close>

text \<open>The operations sent over the handler's \<open>update\<close> channel; the last stands for any
  other value of the \<open>interface{}\<close>.\<close>

datatype op =
  opAdd Object
  | opUpdate Object Object
  | opDelete Object
  | opOther

text \<open>
  \<open>cmp.Equal\<close> is called with two options: \<open>IgnoreFields(IngressRoute{}, "Status")\<close> and
  \<open>IgnoreFields(ObjectMeta{}, "ResourceVersion")\<close>.  With them, two values are equal when
  they are equal once the status of an IngressRoute and the resource version of the
  metadata are blanked, which is what \<open>ignoreFields\<close> does.  No option names the status
  of another kind.
\<close>

definition ignoreResourceVersion :: "ObjectMeta \<Rightarrow> ObjectMeta" where
  "ignoreResourceVersion m = m\<lparr>ResourceVersion := []\<rparr>"

fun ignoreFields :: "Object \<Rightarrow> Object" where
  "ignoreFields (SecretObj x) =
     SecretObj (x\<lparr>secret_ObjectMeta := ignoreResourceVersion (secret_ObjectMeta x)\<rparr>)"
| "ignoreFields (ServiceObj x) =
     ServiceObj (x\<lparr>service_ObjectMeta := ignoreResourceVersion (service_ObjectMeta x)\<rparr>)"
| "ignoreFields (IngressObj x) =
     IngressObj (x\<lparr>ingress_ObjectMeta := ignoreResourceVersion (ingress_ObjectMeta x)\<rparr>)"
| "ignoreFields (IngressRouteObj x) =
     IngressRouteObj (x\<lparr>ir_ObjectMeta := ignoreResourceVersion (ir_ObjectMeta x),
                        ir_Status := \<lparr>CurrentStatus = [], Description = []\<rparr>\<rparr>)"
| "ignoreFields (HTTPProxyObj x) =
     HTTPProxyObj (x\<lparr>proxy_ObjectMeta := ignoreResourceVersion (proxy_ObjectMeta x)\<rparr>)"
| "ignoreFields (IRDelegationObj x) =
     IRDelegationObj
       (x\<lparr>delegation_ObjectMeta := ignoreResourceVersion (delegation_ObjectMeta x)\<rparr>)"
| "ignoreFields (ProxyDelegationObj x) =
     ProxyDelegationObj
       (x\<lparr>delegation_ObjectMeta := ignoreResourceVersion (delegation_ObjectMeta x)\<rparr>)"
| "ignoreFields (DeletedFinalStateUnknown x) = DeletedFinalStateUnknown (ignoreFields x)"
| "ignoreFields (OtherObj x) = OtherObj x"

definition cmp_Equal :: "Object \<Rightarrow> Object \<Rightarrow> bool" where
  "cmp_Equal oldObj newObj \<longleftrightarrow> ignoreFields oldObj = ignoreFields newObj"

text \<open>\<open>onUpdate\<close> acts on the handler's object store (\<open>e.Builder.Source\<close>).\<close>

fun onUpdate :: "KubernetesCache \<Rightarrow> op \<Rightarrow> bool \<times> KubernetesCache" where
  "onUpdate kc (opAdd obj) = Insert kc obj"
| "onUpdate kc (opUpdate oldObj newObj) =
     (if cmp_Equal oldObj newObj then (False, kc)
      else
        (case Remove kc oldObj of
           (removed, kc1) \<Rightarrow>
             (case Insert kc1 newObj of
                (inserted, kc2) \<Rightarrow> (removed \<or> inserted, kc2))))"
| "onUpdate kc (opDelete obj) = Remove kc obj"
| "onUpdate kc opOther = (False, kc)"

section \<open>The notification primitive (package contour, cond.go)\<close>

text \<open>
  A channel is known by its identity.  \<open>Register\<close> and \<open>Notify\<close> run under the mutex of
  the \<open>Cond\<close>, one at a time, so each is a function from the state before to the state after,
  together with the sends it made: a map from the channels sent on to the value sent.
  Each call sends at most once on a channel.  A send is taken to complete: the source
  asks of every registered channel a capacity of at least one.

  The loop of \<open>Notify\<close> ranges over the map \<open>waiters\<close>, and its body reads and deletes the
  entry of its own key only; the entry of every channel is therefore decided by itself:
  it fires when it has no hints or shares a hint with the call.  The counter \<open>last\<close> of
  the source is \<open>cond_last\<close>.
\<close>

type_synonym chan = nat

record Cond =
  waiters :: "chan \<rightharpoonup> string list"
  cond_last :: int64

definition Register ::
  "Cond \<Rightarrow> chan \<Rightarrow> int64 \<Rightarrow> string list \<Rightarrow> Cond \<times> (chan \<rightharpoonup> int64)" where
  "Register c ch lst hints =
     (if sint lst < sint (cond_last c) then (c, [ch \<mapsto> cond_last c])
      else (c\<lparr>waiters := (waiters c)(ch \<mapsto> hints)\<rparr>, Map.empty))"

definition fires :: "string list \<Rightarrow> string list \<Rightarrow> bool" where
  "fires m hints \<longleftrightarrow> length hints = 0 \<or> list_ex (\<lambda>h. h \<in> set m) hints"

definition Notify :: "Cond \<Rightarrow> string list \<Rightarrow> Cond \<times> (chan \<rightharpoonup> int64)" where
  "Notify c hints =
     (let lst = cond_last c + 1 in
      (\<lparr>waiters =
          (\<lambda>ch. case waiters c ch of
                  None \<Rightarrow> None
                | Some hs \<Rightarrow> if fires hints hs then None else Some hs),
        cond_last = lst\<rparr>,
       (\<lambda>ch. case waiters c ch of
               None \<Rightarrow> None
             | Some hs \<Rightarrow> if fires hints hs then Some lst else None)))"

subsection \<open>Runs of the primitive\<close>

datatype cond_op =
  OpRegister chan int64 "string list"
  | OpNotify "string list"

fun step :: "Cond \<Rightarrow> cond_op \<Rightarrow> Cond \<times> (chan \<rightharpoonup> int64)" where
  "step c (OpRegister ch lst hints) = Register c ch lst hints"
| "step c (OpNotify hints) = Notify c hints"

text \<open>The values channel \<open>ch\<close> receives, in order, over a run from state \<open>c\<close>.\<close>

fun observed :: "chan \<Rightarrow> Cond \<Rightarrow> cond_op list \<Rightarrow> int64 list" where
  "observed ch c [] = []"
| "observed ch c (x # xs) =
     (case step c x of
        (c', sent) \<Rightarrow>
          (case sent ch of None \<Rightarrow> [] | Some v \<Rightarrow> [v]) @ observed ch c' xs)"

text \<open>
  A waiter that keeps up: whenever it registers \<open>ch\<close> after having received a version on
  it, the version it supplies is not behind the last one received (the discovery stream
  supplies exactly that one).  \<open>seen\<close> is the last version received, if any.
\<close>

fun keepsUp :: "chan \<Rightarrow> int64 option \<Rightarrow> Cond \<Rightarrow> cond_op list \<Rightarrow> bool" where
  "keepsUp ch seen c [] = True"
| "keepsUp ch seen c (x # xs) =
     ((case x of
         OpRegister ch' lst hints \<Rightarrow>
           ch' \<noteq> ch \<or> (case seen of None \<Rightarrow> True | Some v \<Rightarrow> sint v \<le> sint lst)
       | OpNotify hints \<Rightarrow> True) \<and>
      (case step c x of
         (c', sent) \<Rightarrow>
           keepsUp ch (case sent ch of None \<Rightarrow> seen | Some v \<Rightarrow> Some v) c' xs))"

fun notifies :: "cond_op list \<Rightarrow> nat" where
  "notifies [] = 0"
| "notifies (OpNotify hints # xs) = Suc (notifies xs)"
| "notifies (OpRegister ch lst hints # xs) = notifies xs"

section \<open>Virtual hosts (internal/dag/dag.go)\<close>

text \<open>
  A \<open>Vertex\<close> is an interface value: a pointer, not nil, to one of the vertex types of
  the package, or the nil interface \<open>NilV\<close>.  The route map of a virtual host is an
  association list, written with \<open>AList.update\<close>.
\<close>

datatype Vertex =
  PrefixRouteV PrefixRoute
  | RegexRouteV RegexRoute
  | RouteV Route
  | ClusterV Cluster
  | ServiceV Service
  | SecretV Secret
  | TCPProxyV "Cluster list"
  | VirtualHostV string "(string \<times> Vertex) list"
  | SecureVirtualHostV string "(string \<times> Vertex) list" int32 "Secret option"
      "Cluster list option"
  | ListenerV string int "Vertex list"
  | NilV

record VirtualHost =
  vh_Name :: string
  routes :: "(string \<times> Vertex) list"

datatype panic = Panic string

fun addRoute :: "VirtualHost \<Rightarrow> Vertex \<Rightarrow> panic + VirtualHost" where
  "addRoute v (PrefixRouteV r) =
     Inr (v\<lparr>routes := AList.update (Prefix r) (PrefixRouteV r) (routes v)\<rparr>)"
| "addRoute v (RegexRouteV r) =
     Inr (v\<lparr>routes := AList.update (Regex r) (RegexRouteV r) (routes v)\<rparr>)"
| "addRoute v route = Inl (Panic ''unexpected route type'')"

definition Valid :: "VirtualHost \<Rightarrow> bool" where
  "Valid v \<longleftrightarrow> length (routes v) > 0"

section \<open>What the specification calls a difference in status or version only\<close>

text \<open>
  Two objects differ at most in the resource version when one is the other with another
  resource version; \<open>withStatus\<close> replaces the status of an IngressRoute and leaves an
  object of another kind alone.
\<close>

fun withResourceVersion :: "string \<Rightarrow> Object \<Rightarrow> Object" where
  "withResourceVersion rv (SecretObj x) =
     SecretObj (x\<lparr>secret_ObjectMeta := (secret_ObjectMeta x)\<lparr>ResourceVersion := rv\<rparr>\<rparr>)"
| "withResourceVersion rv (ServiceObj x) =
     ServiceObj (x\<lparr>service_ObjectMeta := (service_ObjectMeta x)\<lparr>ResourceVersion := rv\<rparr>\<rparr>)"
| "withResourceVersion rv (IngressObj x) =
     IngressObj (x\<lparr>ingress_ObjectMeta := (ingress_ObjectMeta x)\<lparr>ResourceVersion := rv\<rparr>\<rparr>)"
| "withResourceVersion rv (IngressRouteObj x) =
     IngressRouteObj (x\<lparr>ir_ObjectMeta := (ir_ObjectMeta x)\<lparr>ResourceVersion := rv\<rparr>\<rparr>)"
| "withResourceVersion rv (HTTPProxyObj x) =
     HTTPProxyObj (x\<lparr>proxy_ObjectMeta := (proxy_ObjectMeta x)\<lparr>ResourceVersion := rv\<rparr>\<rparr>)"
| "withResourceVersion rv (IRDelegationObj x) =
     IRDelegationObj
       (x\<lparr>delegation_ObjectMeta := (delegation_ObjectMeta x)\<lparr>ResourceVersion := rv\<rparr>\<rparr>)"
| "withResourceVersion rv (ProxyDelegationObj x) =
     ProxyDelegationObj
       (x\<lparr>delegation_ObjectMeta := (delegation_ObjectMeta x)\<lparr>ResourceVersion := rv\<rparr>\<rparr>)"
| "withResourceVersion rv (DeletedFinalStateUnknown x) =
     DeletedFinalStateUnknown (withResourceVersion rv x)"
| "withResourceVersion rv (OtherObj x) = OtherObj x"

fun withStatus :: "crd_Status \<Rightarrow> Object \<Rightarrow> Object" where
  "withStatus st (IngressRouteObj x) = IngressRouteObj (x\<lparr>ir_Status := st\<rparr>)"
| "withStatus st (DeletedFinalStateUnknown x) = DeletedFinalStateUnknown (withStatus st x)"
| "withStatus st obj = obj"

section \<open>What the specification calls a reference\<close>

text \<open>
  The specification says when a service or a secret is referenced; these definitions
  follow its words, and are compared with the code's scans below.

  A service is referenced by an Ingress, IngressRoute or HTTPProxy of its own namespace
  that names it in a backend or in a route.
\<close>

definition ingressBackends :: "v1beta1_Ingress \<Rightarrow> string list" where
  "ingressBackends ingress =
     (case ingress_Backend ingress of None \<Rightarrow> [] | Some backend \<Rightarrow> [ServiceName backend]) @
     concat (map (\<lambda>rule.
        case HTTP rule of
          None \<Rightarrow> []
        | Some paths \<Rightarrow> map (\<lambda>path. ServiceName (Backend path)) paths)
       (ingress_Rules ingress))"

definition crdBackends :: "crd_Spec \<Rightarrow> string list" where
  "crdBackends spec =
     concat (map (\<lambda>route. map crdservice_Name (Services route)) (spec_Routes spec)) @
     (case spec_TCPProxy spec of
        None \<Rightarrow> []
      | Some tcpproxy \<Rightarrow> map crdservice_Name (tcpproxy_Services tcpproxy))"

definition serviceReferenced :: "KubernetesCache \<Rightarrow> v1_Service \<Rightarrow> bool" where
  "serviceReferenced kc service \<longleftrightarrow>
     (\<exists>(m, ingress) \<in> set (ingresses kc).
        Namespace (ingress_ObjectMeta ingress) = Namespace (service_ObjectMeta service) \<and>
        Name (service_ObjectMeta service) \<in> set (ingressBackends ingress)) \<or>
     (\<exists>(m, ir) \<in> set (ingressroutes kc).
        Namespace (ir_ObjectMeta ir) = Namespace (service_ObjectMeta service) \<and>
        Name (service_ObjectMeta service) \<in> set (crdBackends (ir_Spec ir))) \<or>
     (\<exists>(m, proxy) \<in> set (httpproxies kc).
        Namespace (proxy_ObjectMeta proxy) = Namespace (service_ObjectMeta service) \<and>
        Name (service_ObjectMeta service) \<in> set (crdBackends (proxy_Spec proxy)))"

text \<open>
  The TLS specs of the store: for every stored Ingress each entry of its TLS list, for
  every stored IngressRoute or HTTPProxy that is a root (has a virtual host) its TLS block
  if any; each with the namespace of the object that holds it and the secret name it gives.
\<close>

definition tlsSpecs :: "KubernetesCache \<Rightarrow> (string \<times> string) list" where
  "tlsSpecs kc =
     concat (map (\<lambda>(m, ingress).
        map (\<lambda>tls. (Namespace (ingress_ObjectMeta ingress), ingresstls_SecretName tls))
          (ingress_TLS ingress)) (ingresses kc)) @
     concat (map (\<lambda>(m, ir).
        case spec_VirtualHost (ir_Spec ir) of
          None \<Rightarrow> []
        | Some vh \<Rightarrow>
           (case TLS vh of
              None \<Rightarrow> []
            | Some tls \<Rightarrow> [(Namespace (ir_ObjectMeta ir), tls_SecretName tls)]))
        (ingressroutes kc)) @
     concat (map (\<lambda>(m, proxy).
        case spec_VirtualHost (proxy_Spec proxy) of
          None \<Rightarrow> []
        | Some vh \<Rightarrow>
           (case TLS vh of
              None \<Rightarrow> []
            | Some tls \<Rightarrow> [(Namespace (proxy_ObjectMeta proxy), tls_SecretName tls)]))
        (httpproxies kc))"

text \<open>
  A secret name is delegated to a namespace when some stored TLSCertificateDelegation, of
  either kind, lists the name with that namespace, or with the wildcard \<open>*\<close>, among its
  targets.
\<close>

definition delegated :: "KubernetesCache \<Rightarrow> string \<Rightarrow> string \<Rightarrow> bool" where
  "delegated kc secretname ns \<longleftrightarrow>
     (\<exists>(m, d) \<in> set (irdelegations kc @ httpproxydelegations kc).
        \<exists>cd \<in> set (Delegations d).
          SecretName cd = secretname \<and>
          (ns \<in> set (TargetNamespaces cd) \<or> ''*'' \<in> set (TargetNamespaces cd)))"

text \<open>
  A TLS spec held in namespace \<open>ns\<close> refers to the secret when it names it from the
  secret's own namespace, by its bare name or as \<open>namespace/name\<close>, or when it names it
  as \<open>namespace/name\<close> and the secret's name is delegated to \<open>ns\<close>.
\<close>

definition refersTo :: "KubernetesCache \<Rightarrow> v1_Secret \<Rightarrow> string \<times> string \<Rightarrow> bool" where
  "refersTo kc secret =
     (\<lambda>(ns, ref).
        (ns = Namespace (secret_ObjectMeta secret) \<and>
         (ref = Name (secret_ObjectMeta secret) \<or>
          ref = Namespace (secret_ObjectMeta secret) @ ''/'' @ Name (secret_ObjectMeta secret))) \<or>
        (ref = Namespace (secret_ObjectMeta secret) @ ''/'' @ Name (secret_ObjectMeta secret) \<and>
         delegated kc (Name (secret_ObjectMeta secret)) ns))"

definition secretReferenced :: "KubernetesCache \<Rightarrow> v1_Secret \<Rightarrow> bool" where
  "secretReferenced kc secret \<longleftrightarrow> list_ex (refersTo kc secret) (tlsSpecs kc)"

text \<open>
  Kubernetes admits no \<open>/\<close> in the name or the namespace of an object; the code relies on
  it when it joins a namespace and a name into one key.
\<close>

definition noSlash :: "string \<Rightarrow> bool" where
  "noSlash s \<longleftrightarrow> CHR ''/'' \<notin> set s"

section \<open>Runs of the notification primitive, continued\<close>

text \<open>The state a run ends in.\<close>

fun final :: "Cond \<Rightarrow> cond_op list \<Rightarrow> Cond" where
  "final c [] = c"
| "final c (x # xs) = final (fst (step c x)) xs"

text \<open>A run in which only other channels register, and nobody notifies.\<close>

fun othersRegister :: "chan \<Rightarrow> cond_op list \<Rightarrow> bool" where
  "othersRegister ch [] = True"
| "othersRegister ch (OpRegister ch' lst hints # xs) = (ch' \<noteq> ch \<and> othersRegister ch xs)"
| "othersRegister ch (OpNotify hints # xs) = False"

definition above :: "int64 option \<Rightarrow> int64 \<Rightarrow> bool" where
  "above seen x \<longleftrightarrow> (case seen of None \<Rightarrow> True | Some v \<Rightarrow> sint v < sint x)"

definition notAhead :: "int64 option \<Rightarrow> Cond \<Rightarrow> bool" where
  "notAhead seen c \<longleftrightarrow> (case seen of None \<Rightarrow> True | Some v \<Rightarrow> sint v \<le> sint (cond_last c))"

section \<open>Sample objects\<close>

definition objectMeta :: "string \<Rightarrow> string \<Rightarrow> ObjectMeta" where
  "objectMeta ns n = \<lparr>Name = n, Namespace = ns, ResourceVersion = ''1'', Annotations = Map.empty\<rparr>"

definition emptyCache :: KubernetesCache where
  "emptyCache =
     \<lparr>RootNamespaces = [], IngressClass = [], ingresses = [], ingressroutes = [],
      httpproxies = [], secrets = [], irdelegations = [], httpproxydelegations = [],
      services = []\<rparr>"

definition route0 :: Route where
  "route0 =
     \<lparr>Clusters = [], HTTPSUpgrade = False, Websocket = False, TimeoutPolicy = None,
      RetryPolicy = None, PrefixRewrite = []\<rparr>"

definition cluster :: "string \<Rightarrow> uint32 \<Rightarrow> Cluster" where
  "cluster n w =
     \<lparr>Upstream =
        \<lparr>svc_Name = n, svc_Namespace = ''default'',
         svc_ServicePort = \<lparr>port_Name = [], port_Port = 80\<rparr>, Protocol = [],
         MaxConnections = 0, MaxPendingRequests = 0, MaxRequests = 0, MaxRetries = 0,
         ExternalName = []\<rparr>,
      Weight = w, UpstreamValidation = None, LoadBalancerStrategy = [],
      HealthCheckPolicy = None\<rparr>"

text \<open>A stand-in for \<open>Clustername\<close> and one for \<open>protobuf.Duration\<close> (nanoseconds).\<close>

definition serviceName :: "Cluster \<Rightarrow> string" where
  "serviceName c = svc_Namespace (Upstream c) @ ''/'' @ svc_Name (Upstream c)"

definition nanos :: "int64 \<Rightarrow> int" where
  "nanos d = sint d"

definition kuardService :: v1_Service where
  "kuardService =
     \<lparr>service_ObjectMeta = objectMeta ''default'' ''kuard'',
      service_Ports = [\<lparr>port_Name = [], port_Port = 80\<rparr>],
      service_ExternalName = [], service_Status = []\<rparr>"

definition kuardIngress :: v1beta1_Ingress where
  "kuardIngress =
     \<lparr>ingress_ObjectMeta = objectMeta ''default'' ''kuard-ing'',
      ingress_Backend = Some \<lparr>ServiceName = ''kuard'', ServicePort = ''80''\<rparr>,
      ingress_TLS = [\<lparr>Hosts = [''kuard.example.com''], ingresstls_SecretName = ''kuard-tls''\<rparr>],
      ingress_Rules = [], ingress_Status = []\<rparr>"

definition tlsSecret :: v1_Secret where
  "tlsSecret =
     \<lparr>secret_ObjectMeta = objectMeta ''default'' ''kuard-tls'',
      secret_Type = ''kubernetes.io/tls'',
      secret_Data = [''tls.crt'' \<mapsto> [1], ''tls.key'' \<mapsto> [2]]\<rparr>"

definition unusedSecret :: v1_Secret where
  "unusedSecret =
     \<lparr>secret_ObjectMeta = objectMeta ''default'' ''spare-tls'',
      secret_Type = ''kubernetes.io/tls'',
      secret_Data = [''tls.crt'' \<mapsto> [1], ''tls.key'' \<mapsto> [2]]\<rparr>"

definition caSecret :: v1_Secret where
  "caSecret =
     \<lparr>secret_ObjectMeta = objectMeta ''default'' ''ca'',
      secret_Type = ''Opaque'',
      secret_Data = [''ca.crt'' \<mapsto> [3]]\<rparr>"

definition wildcardSecret :: v1_Secret where
  "wildcardSecret =
     \<lparr>secret_ObjectMeta = objectMeta ''certs'' ''wildcard'',
      secret_Type = ''kubernetes.io/tls'',
      secret_Data = [''tls.crt'' \<mapsto> [1], ''tls.key'' \<mapsto> [2]]\<rparr>"

definition rootSpec :: "string \<Rightarrow> crd_Spec" where
  "rootSpec secretname =
     \<lparr>spec_VirtualHost =
        Some \<lparr>Fqdn = ''www.example.com'',
              TLS = Some \<lparr>tls_SecretName = secretname, tls_MinimumProtocolVersion = []\<rparr>\<rparr>,
      spec_Routes =
        [\<lparr>Match = ''/'',
          Services = [\<lparr>crdservice_Name = ''kuard'', crdservice_Port = 80,
                       crdservice_Weight = 0\<rparr>]\<rparr>],
      spec_TCPProxy = None\<rparr>"

definition appProxy :: HTTPProxy where
  "appProxy =
     \<lparr>proxy_ObjectMeta = objectMeta ''app'' ''www'',
      proxy_Spec = rootSpec ''certs/wildcard'',
      proxy_Status = \<lparr>CurrentStatus = [], Description = []\<rparr>\<rparr>"

definition appRoute :: IngressRoute where
  "appRoute =
     \<lparr>ir_ObjectMeta = objectMeta ''app'' ''www'',
      ir_Spec = rootSpec ''certs/wildcard'',
      ir_Status = \<lparr>CurrentStatus = [], Description = []\<rparr>\<rparr>"

definition validStatus :: crd_Status where
  "validStatus = \<lparr>CurrentStatus = ''valid'', Description = ''valid HTTPProxy''\<rparr>"

definition wildcardDelegation :: TLSCertificateDelegation where
  "wildcardDelegation =
     \<lparr>delegation_ObjectMeta = objectMeta ''certs'' ''wildcard-delegation'',
      Delegations = [\<lparr>SecretName = ''wildcard'', TargetNamespaces = [''*'']\<rparr>]\<rparr>"

text \<open>A store holding the Ingress, the HTTPProxy root and the delegation.\<close>

definition sampleCache :: KubernetesCache where
  "sampleCache =
     emptyCache
       \<lparr>ingresses := [(toMeta (ingress_ObjectMeta kuardIngress), kuardIngress)],
        httpproxies := [(toMeta (proxy_ObjectMeta appProxy), appProxy)],
        httpproxydelegations :=
          [(toMeta (delegation_ObjectMeta wildcardDelegation), wildcardDelegation)]\<rparr>"

text \<open>
  A store whose only object is an Ingress of namespace \<open>default\<close> that names its
  certificate \<open>default/kuard-tls\<close>.
\<close>

definition qualifiedIngress :: v1beta1_Ingress where
  "qualifiedIngress =
     kuardIngress
       \<lparr>ingress_TLS :=
          [\<lparr>Hosts = [''kuard.example.com''], ingresstls_SecretName = ''default/kuard-tls''\<rparr>]\<rparr>"

definition qualifiedCache :: KubernetesCache where
  "qualifiedCache =
     emptyCache
       \<lparr>ingresses := [(toMeta (ingress_ObjectMeta qualifiedIngress), qualifiedIngress)]\<rparr>"

definition cond0 :: Cond where
  "cond0 = \<lparr>waiters = Map.empty, cond_last = 0\<rparr>"

definition vhost0 :: VirtualHost where
  "vhost0 = \<lparr>vh_Name = ''www.example.com'', routes = []\<rparr>"

section \<open>Properties of the route translation\<close>

text \<open>
  C1. For a route that carries a timeout policy, the timeout of the translated route is:
  absent when the policy's value is 0 (the data plane's default applies), a duration of
  zero when the value is -1 (the data plane's encoding of an infinite timeout), and the
  value itself, as a duration, otherwise.
\<close>

theorem RouteRoute_timeout:
  "TimeoutPolicy r = Some tp \<Longrightarrow>
     (Timeout tp = 0 \<longrightarrow> ra_Timeout (RouteRoute Duration Clustername r) = None) \<and>
     (Timeout tp = - 1 \<longrightarrow>
        ra_Timeout (RouteRoute Duration Clustername r) = Some (Duration 0)) \<and>
     (Timeout tp \<noteq> 0 \<and> Timeout tp \<noteq> - 1 \<longrightarrow>
        ra_Timeout (RouteRoute Duration Clustername r) = Some (Duration (Timeout tp)))"
  by (simp add: RouteRoute_def timeout_def)

theorem RouteRoute_timeout_witness:
  "ra_Timeout (RouteRoute nanos serviceName
       (route0\<lparr>TimeoutPolicy := Some \<lparr>Timeout = 0\<rparr>\<rparr>)) = None \<and>
   ra_Timeout (RouteRoute nanos serviceName
       (route0\<lparr>TimeoutPolicy := Some \<lparr>Timeout = - 1\<rparr>\<rparr>)) = Some 0 \<and>
   ra_Timeout (RouteRoute nanos serviceName
       (route0\<lparr>TimeoutPolicy := Some \<lparr>Timeout = 600000000000\<rparr>\<rparr>)) = Some 600000000000"
proof -
  have a: "TimeoutPolicy (route0\<lparr>TimeoutPolicy := Some \<lparr>Timeout = t\<rparr>\<rparr>) = Some \<lparr>Timeout = t\<rparr>"
    for t by simp
  show ?thesis
    using RouteRoute_timeout [OF a [of 0], of nanos serviceName]
      RouteRoute_timeout [OF a [of "- 1"], of nanos serviceName]
      RouteRoute_timeout [OF a [of 600000000000], of nanos serviceName]
    by (simp add: nanos_def)
qed

text \<open>
  C3, as the code has it.  A route without a retry policy, or with an empty \<open>RetryOn\<close>,
  is translated without a retry policy.  With a non-empty \<open>RetryOn\<close> a retry policy is
  emitted that carries it; the number of retries is emitted when the declared number is
  not zero and is left out when it is zero (no 1 is written: the field is left to the data
  plane's default); the per-try timeout is emitted when the declared one is positive and
  left out otherwise.
\<close>

theorem RouteRoute_retryPolicy:
  "(RetryPolicy r = None \<longrightarrow> ra_RetryPolicy (RouteRoute Duration Clustername r) = None) \<and>
   (\<forall>p. RetryPolicy r = Some p \<longrightarrow>
      (RetryOn p = [] \<longrightarrow> ra_RetryPolicy (RouteRoute Duration Clustername r) = None) \<and>
      (RetryOn p \<noteq> [] \<longrightarrow>
         ra_RetryPolicy (RouteRoute Duration Clustername r) =
           Some \<lparr>erp_RetryOn = RetryOn p,
                 erp_NumRetries =
                   (if NumRetries p = 0 then None else Some \<lparr>Value = NumRetries p\<rparr>),
                 erp_PerTryTimeout =
                   (if 0 < sint (PerTryTimeout p) then Some (Duration (PerTryTimeout p))
                    else None)\<rparr>))"
  by (auto simp: RouteRoute_def retryPolicy_def protobuf_UInt32_def word_gt_0)

theorem RouteRoute_retryPolicy_witness:
  "ra_RetryPolicy (RouteRoute nanos serviceName route0) = None \<and>
   ra_RetryPolicy (RouteRoute nanos serviceName
       (route0\<lparr>RetryPolicy :=
          Some \<lparr>RetryOn = [], NumRetries = 7, PerTryTimeout = 120000000\<rparr>\<rparr>)) = None \<and>
   ra_RetryPolicy (RouteRoute nanos serviceName
       (route0\<lparr>RetryPolicy :=
          Some \<lparr>RetryOn = ''5xx'', NumRetries = 7, PerTryTimeout = 120000000\<rparr>\<rparr>)) =
     Some \<lparr>erp_RetryOn = ''5xx'', erp_NumRetries = Some \<lparr>Value = 7\<rparr>,
           erp_PerTryTimeout = Some 120000000\<rparr>"
  using RouteRoute_retryPolicy [of route0 nanos serviceName]
    RouteRoute_retryPolicy
      [of "route0\<lparr>RetryPolicy :=
             Some \<lparr>RetryOn = [], NumRetries = 7, PerTryTimeout = 120000000\<rparr>\<rparr>"
          nanos serviceName]
    RouteRoute_retryPolicy
      [of "route0\<lparr>RetryPolicy :=
             Some \<lparr>RetryOn = ''5xx'', NumRetries = 7, PerTryTimeout = 120000000\<rparr>\<rparr>"
          nanos serviceName]
  by (simp add: route0_def nanos_def)

text \<open>
  C3 as stated fails: with \<open>RetryOn\<close> set and no number of retries declared, the emitted
  policy has no number of retries at all, not the number 1.
\<close>

theorem RouteRoute_retryPolicy_counterexample:
  "ra_RetryPolicy (RouteRoute nanos serviceName
       (route0\<lparr>RetryPolicy :=
          Some \<lparr>RetryOn = ''5xx'', NumRetries = 0, PerTryTimeout = 0\<rparr>\<rparr>)) =
     Some \<lparr>erp_RetryOn = ''5xx'', erp_NumRetries = None, erp_PerTryTimeout = None\<rparr> \<and>
   map_option erp_NumRetries
     (ra_RetryPolicy (RouteRoute nanos serviceName
        (route0\<lparr>RetryPolicy :=
           Some \<lparr>RetryOn = ''5xx'', NumRetries = 0, PerTryTimeout = 0\<rparr>\<rparr>))) \<noteq>
     Some (Some (protobuf_UInt32 1))"
  by (simp add: RouteRoute_def retryPolicy_def route0_def)

subsection \<open>Weighted clusters\<close>

lemma weightedClusters_loop_eq:
  "weightedClusters_loop CN cs t acc =
     (t + sum_list (map Weight cs),
      acc @ map (\<lambda>c. \<lparr>cw_Name = CN c, cw_Weight = \<lparr>Value = Weight c\<rparr>\<rparr>) cs)"
  by (induction cs arbitrary: t acc) (simp_all add: protobuf_UInt32_def add.assoc)

lemma weightedClusters_eq:
  "weightedClusters CN cs =
     (if sum_list (map Weight cs) = 0
      then \<lparr>wc_Clusters = sort_key clusterWeightByName
               (map (\<lambda>c. \<lparr>cw_Name = CN c, cw_Weight = \<lparr>Value = 1\<rparr>\<rparr>) cs),
            wc_TotalWeight = \<lparr>Value = of_nat (length cs)\<rparr>\<rparr>
      else \<lparr>wc_Clusters = sort_key clusterWeightByName
               (map (\<lambda>c. \<lparr>cw_Name = CN c, cw_Weight = \<lparr>Value = Weight c\<rparr>\<rparr>) cs),
            wc_TotalWeight = \<lparr>Value = sum_list (map Weight cs)\<rparr>\<rparr>)"
  by (simp add: weightedClusters_def weightedClusters_loop_eq protobuf_UInt32_def o_def)

lemma unat_sum_list_no_overflow:
  "sum_list (map unat (ws :: uint32 list)) < 2 ^ 32 \<Longrightarrow>
     unat (sum_list ws) = sum_list (map unat ws)"
proof (induction ws)
  case Nil
  then show ?case by simp
next
  case (Cons w ws)
  then have "unat (sum_list ws) = sum_list (map unat ws)" by simp
  moreover from Cons.prems have "unat w + sum_list (map unat ws) < 2 ^ LENGTH(32)" by simp
  ultimately show ?case
    by (simp add: unat_add_lem [THEN iffD1])
qed

lemma sum_list_zero_iff_no_overflow:
  assumes "sum_list (map unat (ws :: uint32 list)) < 2 ^ 32"
  shows "sum_list ws = 0 \<longleftrightarrow> (\<forall>w\<in>set ws. w = 0)"
proof -
  have "sum_list ws = 0 \<longleftrightarrow> unat (sum_list ws) = 0"
    by (simp add: unat_eq_0)
  also have "\<dots> \<longleftrightarrow> sum_list (map unat ws) = 0"
    using assms by (simp add: unat_sum_list_no_overflow)
  also have "\<dots> \<longleftrightarrow> (\<forall>w\<in>set ws. w = 0)"
    by (simp add: unat_eq_0)
  finally show ?thesis .
qed

text \<open>
  Below the wrap-around the translation is as intended.  For a list of clusters whose
  declared weights sum to less than \<open>2^32\<close>: when every declared weight is zero, every
  emitted weight is 1 and the total weight is the number of clusters (as a \<open>uint32\<close>);
  otherwise the clusters are emitted with their declared weights, and the total weight is
  the sum of these.  In both cases the clusters come out in ascending order of name, then
  weight.
\<close>

lemma weightedClusters_no_overflow:
  assumes "sum_list (map (\<lambda>c. unat (Weight c)) clusters) < 2 ^ 32"
  shows
    "((\<forall>c \<in> set clusters. Weight c = 0) \<longrightarrow>
        wc_Clusters (weightedClusters Clustername clusters) =
          sort_key clusterWeightByName
            (map (\<lambda>c. \<lparr>cw_Name = Clustername c, cw_Weight = \<lparr>Value = 1\<rparr>\<rparr>) clusters) \<and>
        (\<forall>cw \<in> set (wc_Clusters (weightedClusters Clustername clusters)).
           Value (cw_Weight cw) = 1) \<and>
        length (wc_Clusters (weightedClusters Clustername clusters)) = length clusters \<and>
        Value (wc_TotalWeight (weightedClusters Clustername clusters)) =
          of_nat (length clusters)) \<and>
     (\<not> (\<forall>c \<in> set clusters. Weight c = 0) \<longrightarrow>
        wc_Clusters (weightedClusters Clustername clusters) =
          sort_key clusterWeightByName
            (map (\<lambda>c. \<lparr>cw_Name = Clustername c, cw_Weight = \<lparr>Value = Weight c\<rparr>\<rparr>) clusters) \<and>
        unat (Value (wc_TotalWeight (weightedClusters Clustername clusters))) =
          sum_list (map (\<lambda>c. unat (Weight c)) clusters))"
proof -
  have bound: "sum_list (map unat (map Weight clusters)) < 2 ^ 32"
    using assms by (simp add: o_def)
  have zero: "sum_list (map Weight clusters) = 0 \<longleftrightarrow> (\<forall>c \<in> set clusters. Weight c = 0)"
    using sum_list_zero_iff_no_overflow [OF bound] by simp
  have total: "unat (sum_list (map Weight clusters)) =
      sum_list (map (\<lambda>c. unat (Weight c)) clusters)"
    using unat_sum_list_no_overflow [OF bound] by (simp add: o_def)
  show ?thesis
    unfolding weightedClusters_eq zero
    by (auto simp: total)
qed

lemma weightedClusters_declared_weights:
  "weightedClusters serviceName [cluster ''kuard'' 90, cluster ''kuard'' 60] =
     \<lparr>wc_Clusters =
        [\<lparr>cw_Name = ''default/kuard'', cw_Weight = \<lparr>Value = 60\<rparr>\<rparr>,
         \<lparr>cw_Name = ''default/kuard'', cw_Weight = \<lparr>Value = 90\<rparr>\<rparr>],
      wc_TotalWeight = \<lparr>Value = 150\<rparr>\<rparr>"
  by (simp add: weightedClusters_eq cluster_def serviceName_def clusterWeightByName_def)

text \<open>
  C4 at the clusters \<open>a\<close> and \<open>b\<close> with the declared weights \<open>4294967295\<close> and \<open>1\<close>.
  Not every declared weight is zero, so the weights should be emitted as declared.  Their
  \<open>uint32\<close> sum wraps around to zero, the test \<open>total == 0\<close> takes that for "no weights
  were defined", and the clusters are emitted with the weights 1 and 1 and the total 2.
\<close>

theorem weightedClusters_wraps_to_even:
  "Weight (cluster ''a'' 4294967295) = 4294967295 \<and>
   Weight (cluster ''b'' 1) = 1 \<and>
   weightedClusters serviceName [cluster ''a'' 4294967295, cluster ''b'' 1] =
     \<lparr>wc_Clusters =
        [\<lparr>cw_Name = ''default/a'', cw_Weight = \<lparr>Value = 1\<rparr>\<rparr>,
         \<lparr>cw_Name = ''default/b'', cw_Weight = \<lparr>Value = 1\<rparr>\<rparr>],
      wc_TotalWeight = \<lparr>Value = 2\<rparr>\<rparr>"
  by (simp add: weightedClusters_eq cluster_def serviceName_def clusterWeightByName_def)

section \<open>Properties of the object store\<close>

subsection \<open>The scans and the specification's references\<close>

lemma list_ex_eq: "list_ex (\<lambda>x. f x = n) xs \<longleftrightarrow> n \<in> set (map f xs)"
  by (induction xs) auto

lemma rules_name_service:
  "list_ex (\<lambda>rule.
       case HTTP rule of
         None \<Rightarrow> False
       | Some paths \<Rightarrow> list_ex (\<lambda>path. ServiceName (Backend path) = n) paths) rules \<longleftrightarrow>
   n \<in> set (concat (map (\<lambda>rule.
        case HTTP rule of
          None \<Rightarrow> []
        | Some paths \<Rightarrow> map (\<lambda>path. ServiceName (Backend path)) paths) rules))"
proof (induction rules)
  case Nil
  then show ?case by simp
next
  case (Cons rule rules)
  then show ?case
    by (cases "HTTP rule") (simp_all add: list_ex_eq)
qed

lemma routes_name_service:
  "list_ex (\<lambda>route. list_ex (\<lambda>s. crdservice_Name s = n) (Services route)) rts \<longleftrightarrow>
   n \<in> set (concat (map (\<lambda>route. map crdservice_Name (Services route)) rts))"
  by (induction rts) (simp_all add: list_ex_eq)

lemma ingressNamesService_iff:
  "ingressNamesService service ingress \<longleftrightarrow>
     Namespace (ingress_ObjectMeta ingress) = Namespace (service_ObjectMeta service) \<and>
     Name (service_ObjectMeta service) \<in> set (ingressBackends ingress)"
  unfolding ingressNamesService_def ingressBackends_def rules_name_service
  by (cases "ingress_Backend ingress") auto

lemma crdNamesService_iff:
  "crdNamesService service m spec \<longleftrightarrow>
     Namespace m = Namespace (service_ObjectMeta service) \<and>
     Name (service_ObjectMeta service) \<in> set (crdBackends spec)"
  unfolding crdNamesService_def crdBackends_def routes_name_service
  by (cases "spec_TCPProxy spec") (simp_all add: list_ex_eq)

lemma serviceTriggersRebuild_iff:
  "serviceTriggersRebuild kc service \<longleftrightarrow> serviceReferenced kc service"
  by (simp add: serviceTriggersRebuild_def serviceReferenced_def list_ex_iff
      ingressNamesService_iff crdNamesService_iff)

text \<open>
  Two keys \<open>namespace/name\<close> are equal only if their parts are, as long as the parts of
  one of them hold no \<open>/\<close>.
\<close>

lemma slash_key_eq:
  assumes "noSlash a" "noSlash b"
  shows "n @ ''/'' @ s = a @ ''/'' @ b \<longleftrightarrow> n = a \<and> s = b"
  using assms unfolding noSlash_def
  by (auto simp: append_eq_append_conv2 Cons_eq_append_conv append_eq_Cons_conv)

lemma in_delegationKeys:
  "k \<in> set (delegationKeys d) \<longleftrightarrow>
     (\<exists>cd \<in> set (Delegations d). \<exists>n \<in> set (TargetNamespaces cd). k = n @ ''/'' @ SecretName cd)"
  by (auto simp: delegationKeys_def)

lemma in_delegations:
  "k \<in> set (delegations kc) \<longleftrightarrow>
     (\<exists>(m, d) \<in> set (irdelegations kc @ httpproxydelegations kc).
        \<exists>cd \<in> set (Delegations d). \<exists>n \<in> set (TargetNamespaces cd).
          k = n @ ''/'' @ SecretName cd)"
proof -
  have *: "set (delegations kc) =
          (\<Union>x \<in> set (irdelegations kc @ httpproxydelegations kc).
             set (delegationKeys (snd x)))"
    by (auto simp: delegations_def)
  show ?thesis
    unfolding * by (simp add: in_delegationKeys split_beta bex_Un)
qed

lemma star_noSlash: "noSlash ''*''"
  by (simp add: noSlash_def)

lemma delegated_iff_keys:
  assumes "noSlash ns" "noSlash sname"
  shows "(ns @ ''/'' @ sname \<in> set (delegations kc) \<or> ''*/'' @ sname \<in> set (delegations kc))
           \<longleftrightarrow> delegated kc sname ns"
proof -
  have star: "''*/'' @ sname = ''*'' @ ''/'' @ sname" by simp
  have k1: "\<And>n s. (ns @ ''/'' @ sname = n @ ''/'' @ s) = (n = ns \<and> s = sname)"
    using slash_key_eq [OF assms] by metis
  have k2: "\<And>n s. (''*/'' @ sname = n @ ''/'' @ s) = (n = ''*'' \<and> s = sname)"
    unfolding star using slash_key_eq [OF star_noSlash assms(2)] by metis
  show ?thesis
    unfolding in_delegations delegated_def k1 k2 by blast
qed

text \<open>
  Soundness of the scan: a TLS spec that one of its loops accepts refers to the secret.
\<close>

lemma ingressNamesSecret_sound:
  assumes "noSlash (Name (secret_ObjectMeta secret))"
    and "ingress_TLS ingress \<noteq> [] \<Longrightarrow> noSlash (Namespace (ingress_ObjectMeta ingress))"
    and "ingressNamesSecret (delegations kc) secret ingress"
  shows "\<exists>tls \<in> set (ingress_TLS ingress).
           refersTo kc secret
             (Namespace (ingress_ObjectMeta ingress), ingresstls_SecretName tls)"
proof (cases "ingress_TLS ingress = []")
  case True
  with assms(3) show ?thesis by (simp add: ingressNamesSecret_def)
next
  case False
  then have ns: "noSlash (Namespace (ingress_ObjectMeta ingress))" by (rule assms(2))
  show ?thesis
    using assms(3) delegated_iff_keys [OF ns assms(1), of kc]
    by (auto simp: ingressNamesSecret_def Let_def refersTo_def list_ex_iff)
qed

lemma crdNamesSecret_sound:
  assumes "noSlash (Name (secret_ObjectMeta secret))"
    and "\<And>vh tls. spec_VirtualHost spec = Some vh \<Longrightarrow> TLS vh = Some tls
           \<Longrightarrow> noSlash (Namespace m)"
    and "crdNamesSecret (delegations kc) secret m spec"
  shows "\<exists>vh tls. spec_VirtualHost spec = Some vh \<and> TLS vh = Some tls \<and>
           refersTo kc secret (Namespace m, tls_SecretName tls)"
proof (cases "spec_VirtualHost spec")
  case None
  with assms(3) show ?thesis by (simp add: crdNamesSecret_def)
next
  case (Some vh)
  show ?thesis
  proof (cases "TLS vh")
    case None
    with Some assms(3) show ?thesis by (simp add: crdNamesSecret_def)
  next
    case tls: (Some tls)
    have ns: "noSlash (Namespace m)" using assms(2) Some tls by blast
    show ?thesis
      using Some tls assms(3) delegated_iff_keys [OF ns assms(1), of kc]
      by (auto simp: crdNamesSecret_def Let_def refersTo_def)
  qed
qed

lemma in_tlsSpecs_ingress:
  "(m, ingress) \<in> set (ingresses kc) \<Longrightarrow> tls \<in> set (ingress_TLS ingress) \<Longrightarrow>
     (Namespace (ingress_ObjectMeta ingress), ingresstls_SecretName tls) \<in> set (tlsSpecs kc)"
  by (force simp: tlsSpecs_def)

lemma in_tlsSpecs_ingressroute:
  "(m, ir) \<in> set (ingressroutes kc) \<Longrightarrow> spec_VirtualHost (ir_Spec ir) = Some vh \<Longrightarrow>
   TLS vh = Some tls \<Longrightarrow>
     (Namespace (ir_ObjectMeta ir), tls_SecretName tls) \<in> set (tlsSpecs kc)"
  by (force simp: tlsSpecs_def)

lemma in_tlsSpecs_httpproxy:
  "(m, p) \<in> set (httpproxies kc) \<Longrightarrow> spec_VirtualHost (proxy_Spec p) = Some vh \<Longrightarrow>
   TLS vh = Some tls \<Longrightarrow>
     (Namespace (proxy_ObjectMeta p), tls_SecretName tls) \<in> set (tlsSpecs kc)"
  by (force simp: tlsSpecs_def)

lemma in_tlsSpecsD:
  assumes "(ns, ref) \<in> set (tlsSpecs kc)"
  shows "(\<exists>m ingress tls. (m, ingress) \<in> set (ingresses kc) \<and>
            tls \<in> set (ingress_TLS ingress) \<and>
            ns = Namespace (ingress_ObjectMeta ingress) \<and> ref = ingresstls_SecretName tls) \<or>
         (\<exists>m ir vh tls. (m, ir) \<in> set (ingressroutes kc) \<and>
            spec_VirtualHost (ir_Spec ir) = Some vh \<and> TLS vh = Some tls \<and>
            ns = Namespace (ir_ObjectMeta ir) \<and> ref = tls_SecretName tls) \<or>
         (\<exists>m p vh tls. (m, p) \<in> set (httpproxies kc) \<and>
            spec_VirtualHost (proxy_Spec p) = Some vh \<and> TLS vh = Some tls \<and>
            ns = Namespace (proxy_ObjectMeta p) \<and> ref = tls_SecretName tls)"
  using assms unfolding tlsSpecs_def
  by (auto split: option.splits) (metis+)

text \<open>Whatever makes the scan answer \<open>true\<close> is a \<open>ca.crt\<close> entry or a reference.\<close>

lemma secretTriggersRebuild_sound:
  assumes sname: "noSlash (Name (secret_ObjectMeta secret))"
    and roots: "\<forall>(ns, ref) \<in> set (tlsSpecs kc). noSlash ns"
    and trig: "secretTriggersRebuild kc secret"
  shows "secret_Data secret ''ca.crt'' \<noteq> None \<or> secretReferenced kc secret"
proof (cases "secret_Data secret ''ca.crt'' = None")
  case False
  then show ?thesis by simp
next
  case True
  with trig consider
      (ingress) m ingress where "(m, ingress) \<in> set (ingresses kc)"
        "ingressNamesSecret (delegations kc) secret ingress"
    | (ir) m ir where "(m, ir) \<in> set (ingressroutes kc)"
        "crdNamesSecret (delegations kc) secret (ir_ObjectMeta ir) (ir_Spec ir)"
    | (proxy) m p where "(m, p) \<in> set (httpproxies kc)"
        "crdNamesSecret (delegations kc) secret (proxy_ObjectMeta p) (proxy_Spec p)"
    by (auto simp: secretTriggersRebuild_def Let_def list_ex_iff)
  then have "\<exists>x \<in> set (tlsSpecs kc). refersTo kc secret x"
  proof cases
    case ingress
    have "noSlash (Namespace (ingress_ObjectMeta ingress))" if "ingress_TLS ingress \<noteq> []"
    proof -
      from that obtain tls where "tls \<in> set (ingress_TLS ingress)"
        by (cases "ingress_TLS ingress") auto
      from in_tlsSpecs_ingress [OF ingress(1) this] roots show ?thesis by blast
    qed
    from ingressNamesSecret_sound [OF sname this ingress(2)]
    obtain tls where "tls \<in> set (ingress_TLS ingress)"
      "refersTo kc secret (Namespace (ingress_ObjectMeta ingress), ingresstls_SecretName tls)"
      by blast
    with in_tlsSpecs_ingress [OF ingress(1)] show ?thesis by blast
  next
    case ir
    have "noSlash (Namespace (ir_ObjectMeta ir))"
      if "spec_VirtualHost (ir_Spec ir) = Some vh" "TLS vh = Some tls" for vh tls
      using in_tlsSpecs_ingressroute [OF ir(1) that] roots by blast
    then have "\<exists>vh tls. spec_VirtualHost (ir_Spec ir) = Some vh \<and> TLS vh = Some tls \<and>
        refersTo kc secret (Namespace (ir_ObjectMeta ir), tls_SecretName tls)"
      by (intro crdNamesSecret_sound [OF sname _ ir(2)])
    then obtain vh tls where "spec_VirtualHost (ir_Spec ir) = Some vh" "TLS vh = Some tls"
      "refersTo kc secret (Namespace (ir_ObjectMeta ir), tls_SecretName tls)"
      by blast
    with in_tlsSpecs_ingressroute [OF ir(1)] show ?thesis by blast
  next
    case proxy
    have "noSlash (Namespace (proxy_ObjectMeta p))"
      if "spec_VirtualHost (proxy_Spec p) = Some vh" "TLS vh = Some tls" for vh tls
      using in_tlsSpecs_httpproxy [OF proxy(1) that] roots by blast
    then have "\<exists>vh tls. spec_VirtualHost (proxy_Spec p) = Some vh \<and> TLS vh = Some tls \<and>
        refersTo kc secret (Namespace (proxy_ObjectMeta p), tls_SecretName tls)"
      by (intro crdNamesSecret_sound [OF sname _ proxy(2)])
    then obtain vh tls where "spec_VirtualHost (proxy_Spec p) = Some vh" "TLS vh = Some tls"
      "refersTo kc secret (Namespace (proxy_ObjectMeta p), tls_SecretName tls)"
      by blast
    with in_tlsSpecs_httpproxy [OF proxy(1)] show ?thesis by blast
  qed
  then show ?thesis by (simp add: secretReferenced_def list_ex_iff)
qed

text \<open>
  Completeness of the scan, but for one form: a reference that is not written
  \<open>namespace/name\<close> from the secret's own namespace, or is so written next to a
  delegation, makes the scan answer \<open>true\<close>.
\<close>

lemma secretTriggersRebuild_complete:
  assumes sname: "noSlash (Name (secret_ObjectMeta secret))"
    and roots: "\<forall>(ns, ref) \<in> set (tlsSpecs kc). noSlash ns"
    and spec: "(ns, ref) \<in> set (tlsSpecs kc)"
    and ref: "refersTo kc secret (ns, ref)"
    and seen: "ns = Namespace (secret_ObjectMeta secret) \<and>
        ref = Namespace (secret_ObjectMeta secret) @ ''/'' @ Name (secret_ObjectMeta secret)
        \<longrightarrow> delegated kc (Name (secret_ObjectMeta secret)) ns"
  shows "secretTriggersRebuild kc secret"
proof -
  from spec roots have ns: "noSlash ns" by blast
  note keys = delegated_iff_keys [OF ns sname, of kc]
  from ref seen keys
  have test:
    "(ns = Namespace (secret_ObjectMeta secret) \<and> ref = Name (secret_ObjectMeta secret)) \<or>
     (ns @ ''/'' @ Name (secret_ObjectMeta secret) \<in> set (delegations kc) \<and>
      ref = Namespace (secret_ObjectMeta secret) @ ''/'' @ Name (secret_ObjectMeta secret)) \<or>
     (''*/'' @ Name (secret_ObjectMeta secret) \<in> set (delegations kc) \<and>
      ref = Namespace (secret_ObjectMeta secret) @ ''/'' @ Name (secret_ObjectMeta secret))"
    by (auto simp: refersTo_def)
  consider
      (ingress) m ingress tls where "(m, ingress) \<in> set (ingresses kc)"
        "tls \<in> set (ingress_TLS ingress)" "ns = Namespace (ingress_ObjectMeta ingress)"
        "ref = ingresstls_SecretName tls"
    | (ir) m ir vh tls where "(m, ir) \<in> set (ingressroutes kc)"
        "spec_VirtualHost (ir_Spec ir) = Some vh" "TLS vh = Some tls"
        "ns = Namespace (ir_ObjectMeta ir)" "ref = tls_SecretName tls"
    | (proxy) m p vh tls where "(m, p) \<in> set (httpproxies kc)"
        "spec_VirtualHost (proxy_Spec p) = Some vh" "TLS vh = Some tls"
        "ns = Namespace (proxy_ObjectMeta p)" "ref = tls_SecretName tls"
    using in_tlsSpecsD [OF spec] by blast
  then show ?thesis
  proof cases
    case ingress
    with test have "ingressNamesSecret (delegations kc) secret ingress"
      by (auto simp: ingressNamesSecret_def Let_def list_ex_iff)
    with ingress(1) show ?thesis
      by (auto simp: secretTriggersRebuild_def Let_def list_ex_iff)
  next
    case ir
    with test have "crdNamesSecret (delegations kc) secret (ir_ObjectMeta ir) (ir_Spec ir)"
      by (auto simp: crdNamesSecret_def Let_def)
    with ir(1) show ?thesis
      by (auto simp: secretTriggersRebuild_def Let_def list_ex_iff)
  next
    case proxy
    with test
    have "crdNamesSecret (delegations kc) secret (proxy_ObjectMeta p) (proxy_Spec p)"
      by (auto simp: crdNamesSecret_def Let_def)
    with proxy(1) show ?thesis
      by (auto simp: secretTriggersRebuild_def Let_def list_ex_iff)
  qed
qed

text \<open>
  C5 at a store whose only object is an Ingress of namespace \<open>default\<close> with a TLS spec
  naming \<open>default/kuard-tls\<close>, and the TLS secret \<open>kuard-tls\<close> of namespace
  \<open>default\<close>, which has no \<open>ca.crt\<close> entry: the TLS spec references the secret in the
  secret's own namespace, and \<open>secretTriggersRebuild\<close> returns \<open>false\<close>.  The scan
  accepts the form \<open>namespace/name\<close> only next to a delegation, also when the namespace
  written is that of the object itself.
\<close>

theorem secretTriggersRebuild_misses_qualified:
  "tlsSpecs qualifiedCache = [(''default'', ''default/kuard-tls'')] \<and>
   Namespace (secret_ObjectMeta tlsSecret) = ''default'' \<and>
   Name (secret_ObjectMeta tlsSecret) = ''kuard-tls'' \<and>
   secret_Data tlsSecret ''ca.crt'' = None \<and>
   secretReferenced qualifiedCache tlsSecret \<and>
   \<not> secretTriggersRebuild qualifiedCache tlsSecret"
proof -
  have specs: "tlsSpecs qualifiedCache = [(''default'', ''default/kuard-tls'')]"
    by (simp add: tlsSpecs_def qualifiedCache_def qualifiedIngress_def emptyCache_def
        kuardIngress_def objectMeta_def)
  have meta: "Namespace (secret_ObjectMeta tlsSecret) = ''default''"
    "Name (secret_ObjectMeta tlsSecret) = ''kuard-tls''"
    "secret_Data tlsSecret ''ca.crt'' = None"
    by (simp_all add: tlsSecret_def objectMeta_def)
  have ref: "secretReferenced qualifiedCache tlsSecret"
    by (simp add: secretReferenced_def specs refersTo_def meta)
  have nodel: "delegations qualifiedCache = []"
    by (simp add: delegations_def qualifiedCache_def emptyCache_def)
  have ing: "ingresses qualifiedCache =
      [(toMeta (ingress_ObjectMeta qualifiedIngress), qualifiedIngress)]"
    and none: "ingressroutes qualifiedCache = []" "httpproxies qualifiedCache = []"
    by (simp_all add: qualifiedCache_def emptyCache_def)
  have "\<not> ingressNamesSecret [] tlsSecret qualifiedIngress"
    by (simp add: ingressNamesSecret_def Let_def meta qualifiedIngress_def)
  then have "\<not> secretTriggersRebuild qualifiedCache tlsSecret"
    unfolding secretTriggersRebuild_def Let_def nodel ing none
    by (simp add: meta)
  with specs meta ref show ?thesis by simp
qed

lemma sampleCache_tlsSpecs:
  "tlsSpecs sampleCache = [(''default'', ''kuard-tls''), (''app'', ''certs/wildcard'')]"
  by (simp add: tlsSpecs_def sampleCache_def emptyCache_def kuardIngress_def appProxy_def
      rootSpec_def objectMeta_def)

lemma sampleCache_noSlash: "\<forall>(ns, ref) \<in> set (tlsSpecs sampleCache). noSlash ns"
  by (simp add: sampleCache_tlsSpecs noSlash_def)

lemma sampleCache_delegated: "delegated sampleCache ''wildcard'' ''app''"
  by (simp add: delegated_def sampleCache_def emptyCache_def wildcardDelegation_def)

subsection \<open>Insert\<close>

lemma kc_ingressClass_update [simp]:
  "kc_ingressClass (kc\<lparr>ingresses := a\<rparr>) = kc_ingressClass kc"
  "kc_ingressClass (kc\<lparr>ingressroutes := b\<rparr>) = kc_ingressClass kc"
  "kc_ingressClass (kc\<lparr>httpproxies := c\<rparr>) = kc_ingressClass kc"
  by (simp_all add: kc_ingressClass_def)

lemma secretTriggersRebuild_secrets [simp]:
  "secretTriggersRebuild (kc\<lparr>secrets := s\<rparr>) secret = secretTriggersRebuild kc secret"
  by (simp add: secretTriggersRebuild_def delegations_def)

lemma serviceTriggersRebuild_services [simp]:
  "serviceTriggersRebuild (kc\<lparr>services := s\<rparr>) service = serviceTriggersRebuild kc service"
  by (simp add: serviceTriggersRebuild_def)

text \<open>
  C6. Inserting an object into the store that a first insertion of it has left gives the
  same boolean and leaves the same store as the first insertion did.  This holds for every
  object, also one the store turns away.
\<close>

theorem Insert_twice:
  "Insert (snd (Insert kc obj)) obj = Insert kc obj"
  by (cases obj) (simp_all add: Let_def)

theorem Insert_twice_witness:
  "Insert (snd (Insert sampleCache (SecretObj tlsSecret))) (SecretObj tlsSecret) =
     (True, sampleCache\<lparr>secrets := [(toMeta (secret_ObjectMeta tlsSecret), tlsSecret)]\<rparr>) \<and>
   Insert sampleCache (SecretObj tlsSecret) =
     (True, sampleCache\<lparr>secrets := [(toMeta (secret_ObjectMeta tlsSecret), tlsSecret)]\<rparr>)"
proof -
  have "ingressNamesSecret dels tlsSecret kuardIngress" for dels
    by (simp add: ingressNamesSecret_def Let_def tlsSecret_def kuardIngress_def
        objectMeta_def)
  then have trig: "secretTriggersRebuild sampleCache tlsSecret"
    by (simp add: secretTriggersRebuild_def Let_def sampleCache_def emptyCache_def)
  have empty: "secrets sampleCache = []"
    by (simp add: sampleCache_def emptyCache_def)
  have type: "secret_Type tlsSecret = SecretTypeTLS"
    by (simp add: tlsSecret_def SecretTypeTLS_def)
  have token: "SecretTypeTLS \<noteq> SecretTypeServiceAccountToken"
    by (simp add: SecretTypeTLS_def SecretTypeServiceAccountToken_def)
  have ins: "Insert sampleCache (SecretObj tlsSecret) =
     (True, sampleCache\<lparr>secrets := [(toMeta (secret_ObjectMeta tlsSecret), tlsSecret)]\<rparr>)"
    by (simp add: Let_def trig empty type token)
  from Insert_twice [of sampleCache "SecretObj tlsSecret"] show ?thesis
    by (simp only: ins simp_thms)
qed

text \<open>
  C9, as the code has it.  Inserting a Service always stores it under its namespace and
  name, replacing what was there and leaving every other entry alone, and returns whether
  an Ingress, IngressRoute or HTTPProxy of its namespace names it: \<open>false\<close> when none
  does, although the store has changed.  Inserting a secret of type \<open>kubernetes.io/tls\<close>
  that has no \<open>ca.crt\<close> entry stores it likewise and returns \<open>false\<close> when nothing
  references it (names and namespaces being free of \<open>/\<close>, as Kubernetes has them).
  Inserting a secret that has a \<open>ca.crt\<close> entry and is not a service account token
  stores it likewise and returns \<open>true\<close>, whether anything references it or not.
\<close>

theorem Insert_reports_rebuild:
  "Insert kc (ServiceObj service) =
     (serviceReferenced kc service,
      kc\<lparr>services := AList.update (toMeta (service_ObjectMeta service)) service (services kc)\<rparr>) \<and>
   map_of (services (snd (Insert kc (ServiceObj service)))) =
     (map_of (services kc))(toMeta (service_ObjectMeta service) \<mapsto> service) \<and>
   (\<not> serviceReferenced kc service \<longrightarrow> \<not> fst (Insert kc (ServiceObj service))) \<and>
   (secret_Type secret = SecretTypeTLS \<and> secret_Data secret ''ca.crt'' = None \<and>
    noSlash (Name (secret_ObjectMeta secret)) \<and>
    (\<forall>(ns, ref) \<in> set (tlsSpecs kc). noSlash ns) \<and>
    \<not> secretReferenced kc secret \<longrightarrow>
      Insert kc (SecretObj secret) =
        (False,
         kc\<lparr>secrets := AList.update (toMeta (secret_ObjectMeta secret)) secret (secrets kc)\<rparr>) \<and>
      map_of (secrets (snd (Insert kc (SecretObj secret)))) =
        (map_of (secrets kc))(toMeta (secret_ObjectMeta secret) \<mapsto> secret)) \<and>
   (secret_Type ca \<noteq> SecretTypeServiceAccountToken \<and> secret_Data ca ''ca.crt'' \<noteq> None \<longrightarrow>
      Insert kc (SecretObj ca) =
        (True, kc\<lparr>secrets := AList.update (toMeta (secret_ObjectMeta ca)) ca (secrets kc)\<rparr>) \<and>
      map_of (secrets (snd (Insert kc (SecretObj ca)))) =
        (map_of (secrets kc))(toMeta (secret_ObjectMeta ca) \<mapsto> ca))"
proof -
  have service: "Insert kc (ServiceObj service) =
     (serviceReferenced kc service,
      kc\<lparr>services := AList.update (toMeta (service_ObjectMeta service)) service (services kc)\<rparr>)"
    by (simp add: Let_def serviceTriggersRebuild_iff [symmetric])
  have token: "SecretTypeTLS \<noteq> SecretTypeServiceAccountToken"
    by (simp add: SecretTypeTLS_def SecretTypeServiceAccountToken_def)
  have secret: "Insert kc (SecretObj secret) =
        (False,
         kc\<lparr>secrets := AList.update (toMeta (secret_ObjectMeta secret)) secret (secrets kc)\<rparr>)"
    if "secret_Type secret = SecretTypeTLS" "secret_Data secret ''ca.crt'' = None"
      "noSlash (Name (secret_ObjectMeta secret))"
      "\<forall>(ns, ref) \<in> set (tlsSpecs kc). noSlash ns" "\<not> secretReferenced kc secret"
  proof -
    from secretTriggersRebuild_sound [OF that(3,4)] that(2,5)
    have "\<not> secretTriggersRebuild kc secret" by blast
    with that(1,2) token show ?thesis by (simp add: Let_def)
  qed
  have stored: "map_of (services (snd (Insert kc (ServiceObj service)))) =
     (map_of (services kc))(toMeta (service_ObjectMeta service) \<mapsto> service)"
    unfolding service by (simp add: update_conv')
  have quiet: "\<not> serviceReferenced kc service \<longrightarrow> \<not> fst (Insert kc (ServiceObj service))"
    unfolding service by simp
  have secret_stored: "map_of (secrets (snd (Insert kc (SecretObj secret)))) =
        (map_of (secrets kc))(toMeta (secret_ObjectMeta secret) \<mapsto> secret)"
    if "secret_Type secret = SecretTypeTLS" "secret_Data secret ''ca.crt'' = None"
      "noSlash (Name (secret_ObjectMeta secret))"
      "\<forall>(ns, ref) \<in> set (tlsSpecs kc). noSlash ns" "\<not> secretReferenced kc secret"
    unfolding secret [OF that] by (simp add: update_conv')
  have ca: "Insert kc (SecretObj ca) =
        (True, kc\<lparr>secrets := AList.update (toMeta (secret_ObjectMeta ca)) ca (secrets kc)\<rparr>)"
    if "secret_Type ca \<noteq> SecretTypeServiceAccountToken" "secret_Data ca ''ca.crt'' \<noteq> None"
  proof -
    from that(2) have "secretTriggersRebuild kc ca"
      by (simp add: secretTriggersRebuild_def)
    with that show ?thesis by (simp add: Let_def)
  qed
  have ca_stored: "map_of (secrets (snd (Insert kc (SecretObj ca)))) =
        (map_of (secrets kc))(toMeta (secret_ObjectMeta ca) \<mapsto> ca)"
    if "secret_Type ca \<noteq> SecretTypeServiceAccountToken" "secret_Data ca ''ca.crt'' \<noteq> None"
    unfolding ca [OF that] by (simp add: update_conv')
  from service stored quiet secret secret_stored ca ca_stored show ?thesis
    by blast
qed

lemma sampleCache_service:
  "\<not> serviceReferenced sampleCache
       (kuardService\<lparr>service_ObjectMeta := objectMeta ''other'' ''kuard''\<rparr>)"
  by (simp add: serviceReferenced_def sampleCache_def emptyCache_def kuardIngress_def
      appProxy_def objectMeta_def)

theorem Insert_reports_rebuild_witness:
  "Insert sampleCache
      (ServiceObj (kuardService\<lparr>service_ObjectMeta := objectMeta ''other'' ''kuard''\<rparr>)) =
     (False,
      sampleCache\<lparr>services :=
        [(\<lparr>name = ''kuard'', namespace = ''other''\<rparr>,
          kuardService\<lparr>service_ObjectMeta := objectMeta ''other'' ''kuard''\<rparr>)]\<rparr>) \<and>
   Insert sampleCache (SecretObj unusedSecret) =
     (False,
      sampleCache\<lparr>secrets := [(\<lparr>name = ''spare-tls'', namespace = ''default''\<rparr>, unusedSecret)]\<rparr>) \<and>
   Insert sampleCache (SecretObj caSecret) =
     (True, sampleCache\<lparr>secrets := [(\<lparr>name = ''ca'', namespace = ''default''\<rparr>, caSecret)]\<rparr>)"
proof -
  have r: "\<not> secretReferenced sampleCache unusedSecret"
    by (simp add: secretReferenced_def sampleCache_tlsSpecs refersTo_def unusedSecret_def
        objectMeta_def)
  have u: "secret_Type unusedSecret = SecretTypeTLS \<and>
      secret_Data unusedSecret ''ca.crt'' = None \<and>
      noSlash (Name (secret_ObjectMeta unusedSecret))"
    by (simp add: unusedSecret_def SecretTypeTLS_def noSlash_def objectMeta_def)
  have c: "secret_Type caSecret \<noteq> SecretTypeServiceAccountToken \<and>
      secret_Data caSecret ''ca.crt'' \<noteq> None"
    by (simp add: caSecret_def SecretTypeServiceAccountToken_def)
  have e: "services sampleCache = [] \<and> secrets sampleCache = []"
    by (simp add: sampleCache_def emptyCache_def)
  have m: "toMeta (secret_ObjectMeta unusedSecret) = \<lparr>name = ''spare-tls'', namespace = ''default''\<rparr>"
    "toMeta (objectMeta ''other'' ''kuard'') = \<lparr>name = ''kuard'', namespace = ''other''\<rparr>"
    "toMeta (secret_ObjectMeta caSecret) = \<lparr>name = ''ca'', namespace = ''default''\<rparr>"
    by (simp_all add: toMeta_def unusedSecret_def caSecret_def objectMeta_def)
  show ?thesis
    using Insert_reports_rebuild
      [of sampleCache "kuardService\<lparr>service_ObjectMeta := objectMeta ''other'' ''kuard''\<rparr>"
          unusedSecret caSecret]
      r u c e m sampleCache_service sampleCache_noSlash
    by simp
qed

text \<open>
  C9 as stated fails for a secret with a \<open>ca.crt\<close> entry: it is accepted and stored,
  nothing in the store references it, and \<open>Insert\<close> returns \<open>true\<close>.
\<close>

theorem Insert_reports_rebuild_counterexample:
  "\<not> secretReferenced emptyCache caSecret \<and>
   Insert emptyCache (SecretObj caSecret) =
     (True, emptyCache\<lparr>secrets := [(\<lparr>name = ''ca'', namespace = ''default''\<rparr>, caSecret)]\<rparr>)"
proof -
  have "secretTriggersRebuild kc caSecret" for kc
    by (simp add: secretTriggersRebuild_def caSecret_def)
  moreover have "secret_Type caSecret \<noteq> SecretTypeServiceAccountToken"
    "secret_Data caSecret ''ca.crt'' \<noteq> None"
    "toMeta (secret_ObjectMeta caSecret) = \<lparr>name = ''ca'', namespace = ''default''\<rparr>"
    by (simp_all add: caSecret_def SecretTypeServiceAccountToken_def toMeta_def objectMeta_def)
  moreover have "secrets emptyCache = []" "tlsSpecs emptyCache = []"
    by (simp_all add: emptyCache_def tlsSpecs_def)
  ultimately show ?thesis
    by (simp add: Let_def secretReferenced_def)
qed

section \<open>Properties of the event handler\<close>

lemma ignoreFields_withResourceVersion:
  "ignoreFields (withResourceVersion rv obj) = ignoreFields obj"
  by (induction obj) (simp_all add: ignoreResourceVersion_def)

lemma ignoreFields_withStatus: "ignoreFields (withStatus st obj) = ignoreFields obj"
  by (induction obj) simp_all

text \<open>
  C2, as the code has it.  An update whose new object is the old one up to the resource
  version of its metadata and, when it is an IngressRoute, up to its status, leaves the
  object store as it was and returns \<open>false\<close>.
\<close>

theorem onUpdate_skips_status_and_version:
  "onUpdate kc (opUpdate obj (withResourceVersion rv (withStatus st obj))) = (False, kc)"
  by (simp add: cmp_Equal_def ignoreFields_withResourceVersion ignoreFields_withStatus)

theorem onUpdate_skips_status_and_version_witness:
  "onUpdate (emptyCache\<lparr>ingressroutes := [(\<lparr>name = ''www'', namespace = ''app''\<rparr>, appRoute)]\<rparr>)
      (opUpdate (IngressRouteObj appRoute)
         (IngressRouteObj
            (appRoute\<lparr>ir_Status := validStatus,
                      ir_ObjectMeta := (ir_ObjectMeta appRoute)\<lparr>ResourceVersion := ''2''\<rparr>\<rparr>))) =
     (False,
      emptyCache\<lparr>ingressroutes := [(\<lparr>name = ''www'', namespace = ''app''\<rparr>, appRoute)]\<rparr>)"
  using onUpdate_skips_status_and_version
    [of "emptyCache\<lparr>ingressroutes := [(\<lparr>name = ''www'', namespace = ''app''\<rparr>, appRoute)]\<rparr>"
        "IngressRouteObj appRoute" "''2''" validStatus]
  by simp

text \<open>
  C2 as stated fails for the status of an object of another kind, which the comparison
  does not set aside: an Ingress whose status alone has changed is removed and inserted
  again, and \<open>onUpdate\<close> returns \<open>true\<close>.
\<close>

theorem onUpdate_status_counterexample:
  "onUpdate
      (emptyCache\<lparr>ingresses := [(\<lparr>name = ''kuard-ing'', namespace = ''default''\<rparr>, kuardIngress)]\<rparr>)
      (opUpdate (IngressObj kuardIngress)
         (IngressObj (kuardIngress\<lparr>ingress_Status := [''192.0.2.1'']\<rparr>))) =
     (True,
      emptyCache\<lparr>ingresses :=
        [(\<lparr>name = ''kuard-ing'', namespace = ''default''\<rparr>,
          kuardIngress\<lparr>ingress_Status := [''192.0.2.1'']\<rparr>)]\<rparr>)"
proof -
  have ne: "\<not> cmp_Equal (IngressObj kuardIngress)
      (IngressObj (kuardIngress\<lparr>ingress_Status := [''192.0.2.1'']\<rparr>))"
    by (simp add: cmp_Equal_def kuardIngress_def)
  have m: "toMeta (ingress_ObjectMeta kuardIngress) =
      \<lparr>name = ''kuard-ing'', namespace = ''default''\<rparr>"
    by (simp add: toMeta_def kuardIngress_def objectMeta_def)
  have cl: "ingressClass (ingress_ObjectMeta kuardIngress) = []"
    by (simp add: ingressClass_def kuardIngress_def objectMeta_def)
  show ?thesis
    using ne by (simp add: Let_def m cl emptyCache_def)
qed

text \<open>
  Nor is the status of an HTTPProxy set aside, although the handler writes it, as it
  writes that of an IngressRoute, after every rebuild.
\<close>

lemma onUpdate_HTTPProxy_status:
  "onUpdate (emptyCache\<lparr>httpproxies := [(\<lparr>name = ''www'', namespace = ''app''\<rparr>, appProxy)]\<rparr>)
      (opUpdate (HTTPProxyObj appProxy)
         (HTTPProxyObj (appProxy\<lparr>proxy_Status := validStatus\<rparr>))) =
     (True,
      emptyCache\<lparr>httpproxies :=
        [(\<lparr>name = ''www'', namespace = ''app''\<rparr>, appProxy\<lparr>proxy_Status := validStatus\<rparr>)]\<rparr>)"
proof -
  have ne: "\<not> cmp_Equal (HTTPProxyObj appProxy)
      (HTTPProxyObj (appProxy\<lparr>proxy_Status := validStatus\<rparr>))"
    by (simp add: cmp_Equal_def appProxy_def validStatus_def)
  have m: "toMeta (proxy_ObjectMeta appProxy) = \<lparr>name = ''www'', namespace = ''app''\<rparr>"
    by (simp add: toMeta_def appProxy_def objectMeta_def)
  have cl: "ingressClass (proxy_ObjectMeta appProxy) = []"
    by (simp add: ingressClass_def appProxy_def objectMeta_def)
  show ?thesis
    using ne by (simp add: Let_def m cl emptyCache_def)
qed

section \<open>Properties of the notification primitive\<close>

lemma sint_succ:
  fixes x :: int64
  assumes "sint x < 2 ^ 63 - 1"
  shows "sint (x + 1) = sint x + 1"
proof -
  have lo: "- (2 ^ 63) \<le> sint x" using sint_ge [of x] by simp
  have "sint (x + 1) = signed_take_bit 63 (sint x + 1)"
    by (simp add: sint_word_ariths)
  also have "\<dots> = sint x + 1"
    using lo assms by (intro signed_take_bit_int_eq_self) simp_all
  finally show ?thesis .
qed

lemma Register_sent:
  "snd (Register c ch' lst hints) ch =
     (if ch' = ch \<and> sint lst < sint (cond_last c) then Some (cond_last c) else None)"
  by (simp add: Register_def)

lemma Register_last: "cond_last (fst (Register c ch lst hints)) = cond_last c"
  by (simp add: Register_def)

lemma Register_waiters:
  "ch' \<noteq> ch \<Longrightarrow> waiters (fst (Register c ch' lst hints)) ch = waiters c ch"
  by (simp add: Register_def)

lemma Notify_last: "cond_last (fst (Notify c hints)) = cond_last c + 1"
  by (simp add: Notify_def Let_def)

lemma Notify_sent: "snd (Notify c hints) ch = Some v \<Longrightarrow> v = cond_last c + 1"
  by (auto simp: Notify_def Let_def split: option.splits if_splits)

lemma Notify_sent_waiter:
  "waiters c ch = Some hs \<Longrightarrow>
     snd (Notify c hints) ch = (if fires hints hs then Some (cond_last c + 1) else None)"
  by (simp add: Notify_def Let_def)

text \<open>While only other channels register, a channel receives nothing and stays as it is.\<close>

lemma othersRegister_quiet:
  "othersRegister ch xs \<Longrightarrow>
     observed ch c xs = [] \<and> waiters (final c xs) ch = waiters c ch \<and>
     cond_last (final c xs) = cond_last c"
proof (induction xs arbitrary: c)
  case Nil
  then show ?case by simp
next
  case (Cons x xs)
  show ?case
  proof (cases x)
    case (OpRegister ch' lst hints)
    with Cons.prems have ne: "ch' \<noteq> ch" and rest: "othersRegister ch xs" by simp_all
    from Cons.IH [OF rest, of "fst (Register c ch' lst hints)"] ne OpRegister
    show ?thesis
      by (simp add: split_beta Register_sent Register_last Register_waiters)
  next
    case (OpNotify hints)
    with Cons.prems show ?thesis by simp
  qed
qed

text \<open>
  C8. A registration with a version behind the counter sends the counter's value on the
  channel at once and leaves the waiters as they were.  Any other registration sends
  nothing and enters the channel, with its hints, among the waiters; as long as only
  other channels register, nothing is sent on the channel, and the next \<open>Notify\<close>
  sends it the new value of the counter, provided its hints are empty or share one with
  those of the notification.
\<close>

theorem Register_rendezvous:
  "(sint lst < sint (cond_last c) \<longrightarrow>
      Register c ch lst hints = (c, [ch \<mapsto> cond_last c])) \<and>
   (\<not> sint lst < sint (cond_last c) \<longrightarrow>
      Register c ch lst hints = (c\<lparr>waiters := (waiters c)(ch \<mapsto> hints)\<rparr>, Map.empty) \<and>
      (\<forall>xs. othersRegister ch xs \<longrightarrow>
         observed ch (fst (Register c ch lst hints)) xs = [] \<and>
         snd (Notify (final (fst (Register c ch lst hints)) xs) hints') ch =
           (if fires hints' hints then Some (cond_last c + 1) else None)))"
proof (intro conjI impI allI)
  assume "sint lst < sint (cond_last c)"
  then show "Register c ch lst hints = (c, [ch \<mapsto> cond_last c])"
    by (simp add: Register_def)
next
  assume "\<not> sint lst < sint (cond_last c)"
  then show "Register c ch lst hints = (c\<lparr>waiters := (waiters c)(ch \<mapsto> hints)\<rparr>, Map.empty)"
    by (simp add: Register_def)
next
  fix xs
  assume "\<not> sint lst < sint (cond_last c)" and "othersRegister ch xs"
  then show "observed ch (fst (Register c ch lst hints)) xs = []"
    by (simp add: othersRegister_quiet)
next
  fix xs
  assume late: "\<not> sint lst < sint (cond_last c)" and others: "othersRegister ch xs"
  let ?c = "fst (Register c ch lst hints)"
  from late have "waiters ?c ch = Some hints" "cond_last ?c = cond_last c"
    by (simp_all add: Register_def)
  with othersRegister_quiet [OF others, of ?c]
  have "waiters (final ?c xs) ch = Some hints" "cond_last (final ?c xs) = cond_last c"
    by simp_all
  then show "snd (Notify (final ?c xs) hints') ch =
      (if fires hints' hints then Some (cond_last c + 1) else None)"
    by (simp add: Notify_sent_waiter)
qed

theorem Register_rendezvous_witness:
  "Register (cond0\<lparr>cond_last := 3\<rparr>) 7 1 [] = (cond0\<lparr>cond_last := 3\<rparr>, [7 \<mapsto> 3]) \<and>
   Register cond0 7 0 [''x''] = (cond0\<lparr>waiters := (waiters cond0)(7 \<mapsto> [''x''])\<rparr>, Map.empty) \<and>
   observed 7 (fst (Register cond0 7 0 [''x''])) [OpRegister 8 0 []] = [] \<and>
   snd (Notify (final (fst (Register cond0 7 0 [''x''])) [OpRegister 8 0 []]) [''x'', ''y'']) 7 =
     Some 1"
proof -
  have a: "sint (1 :: int64) < sint (cond_last (cond0\<lparr>cond_last := 3\<rparr>))"
    by simp
  have b: "\<not> sint (0 :: int64) < sint (cond_last cond0)"
    by (simp add: cond0_def)
  have c: "othersRegister 7 [OpRegister 8 0 []]"
    by simp
  have d: "fires [''x'', ''y''] [''x'']"
    by (simp add: fires_def)
  have e: "cond_last cond0 + 1 = 1"
    by (simp add: cond0_def)
  from Register_rendezvous [of 1 "cond0\<lparr>cond_last := 3\<rparr>" 7 "[]" "[]"] a
  have p1: "Register (cond0\<lparr>cond_last := 3\<rparr>) 7 1 [] = (cond0\<lparr>cond_last := 3\<rparr>, [7 \<mapsto> 3])"
    by simp
  note r = Register_rendezvous [of 0 cond0 7 "[''x'']" "[''x'', ''y'']"]
  from r b
  have p2: "Register cond0 7 0 [''x''] =
      (cond0\<lparr>waiters := (waiters cond0)(7 \<mapsto> [''x''])\<rparr>, Map.empty)"
    by blast
  from r b c
  have "observed 7 (fst (Register cond0 7 0 [''x''])) [OpRegister 8 0 []] = [] \<and>
    snd (Notify (final (fst (Register cond0 7 0 [''x''])) [OpRegister 8 0 []]) [''x'', ''y'']) 7 =
      (if fires [''x'', ''y''] [''x''] then Some (cond_last cond0 + 1) else None)"
    by blast
  with d e
  have p3: "observed 7 (fst (Register cond0 7 0 [''x''])) [OpRegister 8 0 []] = [] \<and>
    snd (Notify (final (fst (Register cond0 7 0 [''x''])) [OpRegister 8 0 []]) [''x'', ''y'']) 7 =
      Some 1"
    by (simp only: if_True)
  from p1 p2 p3 show ?thesis
    by blast
qed

text \<open>
  Over a run, a waiter that keeps up receives strictly increasing versions, as long as
  the counter stays below the largest \<open>int\<close>.
\<close>

lemma observed_increasing:
  "keepsUp ch seen c xs \<Longrightarrow> notAhead seen c \<Longrightarrow>
   sint (cond_last c) + int (notifies xs) < 2 ^ 63 \<Longrightarrow>
   sorted_wrt (\<lambda>a b. sint a < sint b) (observed ch c xs) \<and>
   (\<forall>x \<in> set (observed ch c xs). above seen x)"
proof (induction xs arbitrary: c seen)
  case Nil
  then show ?case by simp
next
  case (Cons x xs)
  obtain c' sent where st: "step c x = (c', sent)" by (cases "step c x")
  define seen' where "seen' = (case sent ch of None \<Rightarrow> seen | Some v \<Rightarrow> Some v)"
  from Cons.prems(1) st have ku: "keepsUp ch seen' c' xs"
    by (simp add: seen'_def)
  have facts: "notAhead seen' c' \<and> sint (cond_last c') + int (notifies xs) < 2 ^ 63 \<and>
               (\<forall>v. sent ch = Some v \<longrightarrow> above seen v)"
  proof (cases x)
    case (OpRegister ch' lst hints)
    with st have c': "c' = fst (Register c ch' lst hints)"
      and s: "sent = snd (Register c ch' lst hints)"
      by simp_all
    have ok: "ch' = ch \<Longrightarrow> seen = Some v \<Longrightarrow> sint v \<le> sint lst" for v
      using Cons.prems(1) OpRegister by simp
    show ?thesis
      using Cons.prems(2,3) OpRegister ok
      by (auto simp: c' s seen'_def Register_sent Register_last notAhead_def above_def
          split: option.splits if_splits)
  next
    case (OpNotify hints)
    with st have c': "c' = fst (Notify c hints)" and s: "sent = snd (Notify c hints)"
      by simp_all
    from Cons.prems(3) OpNotify have "sint (cond_last c) < 2 ^ 63 - 1" by simp
    then have succ: "sint (cond_last c + 1) = sint (cond_last c) + 1" by (rule sint_succ)
    have sentv: "sent ch = Some v \<Longrightarrow> v = cond_last c + 1" for v
      unfolding s by (rule Notify_sent)
    show ?thesis
      using Cons.prems(2,3) OpNotify succ sentv
      by (auto simp: c' seen'_def Notify_last notAhead_def above_def
          split: option.splits)
  qed
  from Cons.IH [OF ku] facts
  have IH: "sorted_wrt (\<lambda>a b. sint a < sint b) (observed ch c' xs)"
    "\<forall>x \<in> set (observed ch c' xs). above seen' x"
    by simp_all
  show ?case
  proof (cases "sent ch")
    case None
    with st IH show ?thesis by (simp add: seen'_def)
  next
    case (Some v)
    with facts have av: "above seen v" by simp
    from Some IH(2) have gt: "\<forall>x \<in> set (observed ch c' xs). sint v < sint x"
      by (simp add: seen'_def above_def)
    with av have "\<forall>x \<in> set (observed ch c' xs). above seen x"
      by (auto simp: above_def split: option.splits)
    with st Some IH(1) gt av show ?thesis by simp
  qed
qed

text \<open>
  C7, as the code has it.  \<open>Notify\<close> adds one to the counter (and, below the largest
  \<open>int\<close>, the counter read as a number grows by exactly one); every value \<open>Notify\<close>
  sends is the counter's value after the increment, and every value \<open>Register\<close> sends
  is the counter's value, which \<open>Register\<close> leaves as it is.  Hence, over any run in which
  the counter does not pass the largest \<open>int\<close>, a waiter that at every registration
  supplies a version not behind the last one it received observes strictly increasing
  versions on its channel.
\<close>

theorem Cond_versions_increase:
  "cond_last (fst (Notify c hints)) = cond_last c + 1 \<and>
   (sint (cond_last c) < 2 ^ 63 - 1 \<longrightarrow>
      sint (cond_last (fst (Notify c hints))) = sint (cond_last c) + 1) \<and>
   (\<forall>w v. snd (Notify c hints) w = Some v \<longrightarrow> v = cond_last (fst (Notify c hints))) \<and>
   (\<forall>w lst hs. cond_last (fst (Register c w lst hs)) = cond_last c \<and>
      (\<forall>w' v. snd (Register c w lst hs) w' = Some v \<longrightarrow> w' = w \<and> v = cond_last c)) \<and>
   (keepsUp ch None c xs \<and> sint (cond_last c) + int (notifies xs) < 2 ^ 63 \<longrightarrow>
      sorted_wrt (\<lambda>a b. sint a < sint b) (observed ch c xs))"
proof (intro conjI impI allI)
  show "cond_last (fst (Notify c hints)) = cond_last c + 1"
    by (rule Notify_last)
next
  assume "sint (cond_last c) < 2 ^ 63 - 1"
  then show "sint (cond_last (fst (Notify c hints))) = sint (cond_last c) + 1"
    by (simp add: Notify_last sint_succ)
next
  fix w v assume "snd (Notify c hints) w = Some v"
  then show "v = cond_last (fst (Notify c hints))"
    by (simp add: Notify_last Notify_sent)
next
  fix w lst hs
  show "cond_last (fst (Register c w lst hs)) = cond_last c"
    by (rule Register_last)
next
  fix w lst hs w' v assume "snd (Register c w lst hs) w' = Some v"
  then show "w' = w" "v = cond_last c"
    by (simp_all add: Register_sent split: if_splits)
next
  assume "keepsUp ch None c xs \<and> sint (cond_last c) + int (notifies xs) < 2 ^ 63"
  then show "sorted_wrt (\<lambda>a b. sint a < sint b) (observed ch c xs)"
    using observed_increasing [of ch None c xs] by (simp add: notAhead_def)
qed

theorem Cond_versions_increase_witness:
  "observed 1 cond0
      [OpRegister 1 0 [], OpNotify [], OpNotify [''x''], OpRegister 1 1 [''x'']] = [1, 2] \<and>
   sorted_wrt (\<lambda>a b. sint a < sint b)
     (observed 1 cond0
        [OpRegister 1 0 [], OpNotify [], OpNotify [''x''], OpRegister 1 1 [''x'']]) \<and>
   cond_last (fst (Notify cond0 [])) = 1"
proof -
  let ?xs = "[OpRegister 1 0 [], OpNotify [], OpNotify [''x''], OpRegister 1 1 [''x'']]"
  have k: "keepsUp 1 None cond0 ?xs"
    by (simp add: cond0_def Register_def Notify_def fires_def)
  have n: "sint (cond_last cond0) + int (notifies ?xs) < 2 ^ 63"
    by (simp add: cond0_def)
  have o: "observed 1 cond0 ?xs = [1, 2]"
    by (simp add: cond0_def Register_def Notify_def fires_def)
  have l: "cond_last cond0 + 1 = 1"
    by (simp add: cond0_def)
  from Cond_versions_increase [of cond0 "[]" 1 ?xs] k n o l show ?thesis
    by simp
qed

text \<open>
  C7 as stated fails for a waiter that registers again with a version behind the one it
  has received: \<open>Register\<close> fires at once whenever the version supplied is below the
  counter, so the waiter receives the same version a second time.
\<close>

theorem Cond_stale_registration_counterexample:
  "observed 1 cond0 [OpNotify [], OpRegister 1 0 [], OpRegister 1 0 []] = [1, 1] \<and>
   \<not> sorted_wrt (\<lambda>a b. sint a < sint b)
       (observed 1 cond0 [OpNotify [], OpRegister 1 0 [], OpRegister 1 0 []])"
proof -
  have o: "observed 1 cond0 [OpNotify [], OpRegister 1 0 [], OpRegister 1 0 []] = [1, 1]"
    by (simp add: cond0_def Register_def Notify_def fires_def)
  show ?thesis
    unfolding o by simp
qed

section \<open>Properties of virtual hosts\<close>

text \<open>
  C10. \<open>addRoute\<close> panics for every vertex that is neither a \<open>PrefixRoute\<close> nor a
  \<open>RegexRoute\<close>.  For a \<open>PrefixRoute\<close> it never panics: afterwards the route map holds
  the vertex under its prefix, whatever was there before, and every other key is as it was;
  likewise for a \<open>RegexRoute\<close> and its regex.
\<close>

theorem addRoute_route_shapes:
  "((\<forall>r. route \<noteq> PrefixRouteV r) \<and> (\<forall>r. route \<noteq> RegexRouteV r) \<longrightarrow>
      (\<exists>msg. addRoute v route = Inl (Panic msg))) \<and>
   (\<exists>v'. addRoute v (PrefixRouteV p) = Inr v' \<and> vh_Name v' = vh_Name v \<and>
      map_of (routes v') = (map_of (routes v))(Prefix p \<mapsto> PrefixRouteV p)) \<and>
   (\<exists>v'. addRoute v (RegexRouteV g) = Inr v' \<and> vh_Name v' = vh_Name v \<and>
      map_of (routes v') = (map_of (routes v))(Regex g \<mapsto> RegexRouteV g))"
proof (intro conjI impI)
  assume "(\<forall>r. route \<noteq> PrefixRouteV r) \<and> (\<forall>r. route \<noteq> RegexRouteV r)"
  then show "\<exists>msg. addRoute v route = Inl (Panic msg)"
    by (cases route) simp_all
next
  show "\<exists>v'. addRoute v (PrefixRouteV p) = Inr v' \<and> vh_Name v' = vh_Name v \<and>
      map_of (routes v') = (map_of (routes v))(Prefix p \<mapsto> PrefixRouteV p)"
    by (simp add: update_conv')
next
  show "\<exists>v'. addRoute v (RegexRouteV g) = Inr v' \<and> vh_Name v' = vh_Name v \<and>
      map_of (routes v') = (map_of (routes v))(Regex g \<mapsto> RegexRouteV g)"
    by (simp add: update_conv')
qed

theorem addRoute_route_shapes_witness:
  "addRoute vhost0 (ClusterV (cluster ''kuard'' 1)) = Inl (Panic ''unexpected route type'') \<and>
   addRoute vhost0 NilV = Inl (Panic ''unexpected route type'') \<and>
   addRoute (vhost0\<lparr>routes := [(''/'', RegexRouteV \<lparr>Regex = ''/'', regex_Route = route0\<rparr>)]\<rparr>)
      (PrefixRouteV \<lparr>Prefix = ''/'', prefix_Route = route0\<rparr>) =
     Inr (vhost0\<lparr>routes := [(''/'', PrefixRouteV \<lparr>Prefix = ''/'', prefix_Route = route0\<rparr>)]\<rparr>)"
  using addRoute_route_shapes
      [of "ClusterV (cluster ''kuard'' 1)" vhost0 "\<lparr>Prefix = ''/'', prefix_Route = route0\<rparr>"
          "\<lparr>Regex = ''/'', regex_Route = route0\<rparr>"]
    addRoute_route_shapes
      [of NilV "vhost0\<lparr>routes := [(''/'', RegexRouteV \<lparr>Regex = ''/'', regex_Route = route0\<rparr>)]\<rparr>"
          "\<lparr>Prefix = ''/'', prefix_Route = route0\<rparr>" "\<lparr>Regex = ''/'', regex_Route = route0\<rparr>"]
  by simp

end
